theory Spec2Isabelle
  imports Complex_Main "HOL-Library.Sublist" "HOL-Library.Word" "HOL-Library.Log_Nat"
begin

section \<open>Go values used by the client\<close>

text \<open>
  Go strings and byte slices are sequences of bytes: \<^typ>\<open>string\<close>.  A slice is a
  list (a nil slice is the empty list).  An \<open>error\<close> value is identified with what its
  \<open>Error()\<close> method prints; \<open>io.EOF\<close> is kept apart because \<open>io.Copy\<close> tests for it.
  A run-time panic is a value of its own.
\<close>

type_synonym bytes = string
type_synonym uint32 = "32 word"
type_synonym uint64 = "64 word"

datatype error = EOF | errorString string

datatype panic = index_out_of_range

fun Error_msg :: "error \<Rightarrow> string" where
  "Error_msg EOF = ''EOF''"
| "Error_msg (errorString s) = s"

text \<open>Indexing a slice: Go panics when the index is not below the length.\<close>

definition index :: "'a list \<Rightarrow> nat \<Rightarrow> panic + 'a" where
  "index xs i = (if i < length xs then Inr (xs ! i) else Inl index_out_of_range)"

text \<open>
  \<open>strings.SplitN(s, "=", 2)\<close>: at most two pieces, cut at the first \<open>=\<close>; a string
  without \<open>=\<close> comes back whole, as the only piece.
\<close>

definition SplitN_eq_2 :: "string \<Rightarrow> string list" where
  "SplitN_eq_2 s =
     (if CHR ''='' \<in> set s
      then [takeWhile (\<lambda>c. c \<noteq> CHR ''='') s, tl (dropWhile (\<lambda>c. c \<noteq> CHR ''='') s)]
      else [s])"

section \<open>Environment variables\<close>

record EnvironmentVariable =
  Key :: "string option"
  Value :: "string option"

text \<open>
  \<open>convertEnvironmentVariables\<close>: one loop over the entries; \<open>segs[0]\<close> and \<open>segs[1]\<close>
  are slice accesses, so the second one panics on an entry that \<open>SplitN\<close> did not cut.
\<close>

definition convertEnvironmentVariable :: "string \<Rightarrow> panic + EnvironmentVariable" where
  "convertEnvironmentVariable env =
     (let segs = SplitN_eq_2 env in
      case index segs 0 of
        Inl p \<Rightarrow> Inl p
      | Inr k \<Rightarrow>
          (case index segs 1 of
             Inl p \<Rightarrow> Inl p
           | Inr v \<Rightarrow> Inr \<lparr>Key = Some k, Value = Some v\<rparr>))"

fun convertEnvironmentVariables_loop ::
  "string list \<Rightarrow> EnvironmentVariable list \<Rightarrow> panic + EnvironmentVariable list" where
  "convertEnvironmentVariables_loop [] converted = Inr converted"
| "convertEnvironmentVariables_loop (env # envs) converted =
     (case convertEnvironmentVariable env of
        Inl p \<Rightarrow> Inl p
      | Inr c \<Rightarrow> convertEnvironmentVariables_loop envs (converted @ [c]))"

definition convertEnvironmentVariables :: "string list \<Rightarrow> panic + EnvironmentVariable list" where
  "convertEnvironmentVariables environmentVariables =
     convertEnvironmentVariables_loop environmentVariables []"

section \<open>The process stream record\<close>

text \<open>
  Modelled from the spec: package \<open>protocol\<close> (the generated message types and their
  getters) is not among the sources.  \<open>ProcessPayload\<close> is the streaming record of the
  data model, every field optional; the fields are the ones the client code names.  A
  getter returns the field, or the default of its type when the field is absent
  (the first value of the enum, the empty string, zero).
\<close>

datatype ProcessPayload_Source =
  ProcessPayload_stdin | ProcessPayload_stdout | ProcessPayload_stderr

datatype ProcessPayload_Signal = ProcessPayload_kill

record TTY_WindowSize =
  Columns_p :: "uint32 option"
  Rows_p :: "uint32 option"

record protocol_TTY =
  WindowSize_p :: "TTY_WindowSize option"

record ProcessPayload =
  ProcessId :: "uint32 option"
  Source :: "ProcessPayload_Source option"
  Data :: "string option"
  Tty :: "protocol_TTY option"
  Signal :: "ProcessPayload_Signal option"
  ExitStatus :: "uint32 option"
  Error :: "string option"

definition GetSource :: "ProcessPayload \<Rightarrow> ProcessPayload_Source" where
  "GetSource m = (case Source m of Some s \<Rightarrow> s | None \<Rightarrow> ProcessPayload_stdin)"

definition GetData :: "ProcessPayload \<Rightarrow> string" where
  "GetData m = (case Data m of Some d \<Rightarrow> d | None \<Rightarrow> [])"

definition GetError :: "ProcessPayload \<Rightarrow> string" where
  "GetError m = (case Error m of Some e \<Rightarrow> e | None \<Rightarrow> [])"

definition GetExitStatus :: "ProcessPayload \<Rightarrow> uint32" where
  "GetExitStatus m = (case ExitStatus m of Some e \<Rightarrow> e | None \<Rightarrow> 0)"

text \<open>The record with no field set: \<open>&protocol.ProcessPayload{}\<close>.\<close>

definition ProcessPayload_empty :: ProcessPayload where
  "ProcessPayload_empty =
     \<lparr>ProcessId = None, Source = None, Data = None, Tty = None, Signal = None,
      ExitStatus = None, Error = None\<rparr>"

section \<open>The hijacked connection and the process stream\<close>

text \<open>
  The connection (a \<open>net.Conn\<close>), as far as the client's code can tell: whether
  \<open>Close\<close> has been called on it, and the records written to it so far, in order.
\<close>

record net_Conn =
  closed :: bool
  wire :: "ProcessPayload list"

text \<open>
  Modelled from the spec: \<open>transport.WriteMessage\<close> is not among the sources.  It writes
  one whole framed record to the connection; a write to a connection that has been
  closed fails and writes nothing.
\<close>

definition WriteMessage :: "net_Conn \<Rightarrow> ProcessPayload \<Rightarrow> error option \<times> net_Conn" where
  "WriteMessage c m =
     (if closed c then (Some (errorString ''use of closed network connection''), c)
      else (None, c\<lparr>wire := wire c @ [m]\<rparr>))"

definition conn_Close :: "net_Conn \<Rightarrow> net_Conn" where
  "conn_Close c = c\<lparr>closed := True\<rparr>"

record processStream =
  id_s :: uint32
  conn :: net_Conn

text \<open>
  \<open>sendPayload\<close> takes the stream's mutex, writes the record and releases the mutex
  on both paths.  One call at a time is modelled here, and for one call the mutex
  changes nothing: what is left is the write and its error.
\<close>

definition sendPayload :: "processStream \<Rightarrow> ProcessPayload \<Rightarrow> error option \<times> processStream" where
  "sendPayload s payload =
     (case WriteMessage (conn s) payload of (err, c) \<Rightarrow> (err, s\<lparr>conn := c\<rparr>))"

definition WriteStdin :: "processStream \<Rightarrow> bytes \<Rightarrow> error option \<times> processStream" where
  "WriteStdin s data =
     sendPayload s (ProcessPayload_empty
       \<lparr>ProcessId := Some (id_s s), Source := Some ProcessPayload_stdin, Data := Some data\<rparr>)"

definition CloseStdin :: "processStream \<Rightarrow> error option \<times> processStream" where
  "CloseStdin s =
     sendPayload s (ProcessPayload_empty
       \<lparr>ProcessId := Some (id_s s), Source := Some ProcessPayload_stdin\<rparr>)"

definition Kill :: "processStream \<Rightarrow> error option \<times> processStream" where
  "Kill s =
     sendPayload s (ProcessPayload_empty
       \<lparr>ProcessId := Some (id_s s), Signal := Some ProcessPayload_kill\<rparr>)"

definition Close :: "processStream \<Rightarrow> processStream" where
  "Close s = s\<lparr>conn := conn_Close (conn s)\<rparr>"

section \<open>The process object\<close>

text \<open>
  Go's \<open>int\<close> is taken at 64 bits (the daemon is a Linux container host), so
  \<open>int(x)\<close> of a \<open>uint32\<close> is the same number: \<^term>\<open>uint\<close> reads it.
\<close>

record process =
  id_p :: uint32
  stream :: processStream
  done_p :: bool
  exitStatus :: int
  exitErr :: "error option"

definition newProcess :: "uint32 \<Rightarrow> net_Conn \<Rightarrow> process" where
  "newProcess i netConn =
     \<lparr>id_p = i, stream = \<lparr>id_s = i, conn = netConn\<rparr>,
      done_p = False, exitStatus = 0, exitErr = None\<rparr>"

text \<open>
  \<open>Wait\<close> sleeps on the condition variable until \<open>done\<close> is set, then returns the
  stored pair; \<open>None\<close> stands for a caller that is still blocked.  Every caller reads
  the same fields, so every caller gets the same pair.
\<close>

definition Wait :: "process \<Rightarrow> (int \<times> error option) option" where
  "Wait p = (if done_p p then Some (exitStatus p, exitErr p) else None)"

definition exited :: "int \<Rightarrow> error option \<Rightarrow> process \<Rightarrow> process" where
  "exited status err p = p\<lparr>exitStatus := status, exitErr := err, done_p := True\<rparr>"

section \<open>Streaming the payloads\<close>

text \<open>
  Modelled from the spec: package \<open>api\<close> is not among the sources.  \<open>api.ProcessIO\<close> is
  the triple of optional handles (stdin reader, stdout writer, stderr writer).  A reader
  is the list of results its \<open>Read\<close> calls return, in order: the bytes read and the
  error, if any.  A writer is the list of the byte slices passed to its \<open>Write\<close> calls
  so far.
\<close>

type_synonym reader = "(bytes \<times> error option) list"
type_synonym writer = "bytes list"

record ProcessIO =
  Stdin :: "reader option"
  Stdout :: "writer option"
  Stderr :: "writer option"

text \<open>
  Modelled from the spec: \<open>stdinWriter\<close> is not among the sources.  It is the writer
  the stdin goroutine copies to: \<open>Write\<close> is one \<open>WriteStdin\<close> call on the stream and
  \<open>Close\<close> sends the stdin-close record.
\<close>

definition stdinWriter_Write :: "processStream \<Rightarrow> bytes \<Rightarrow> error option \<times> processStream" where
  "stdinWriter_Write s d = WriteStdin s d"

definition stdinWriter_Close :: "processStream \<Rightarrow> error option \<times> processStream" where
  "stdinWriter_Close s = CloseStdin s"

text \<open>
  \<open>io.Copy(writer, reader)\<close>: read, write what was read if it is not empty, stop at the
  first error of either side; the reader's \<open>io.EOF\<close> is not an error of the copy.
  \<open>Blocked\<close> is a copy whose reader has not yet returned its last result.
\<close>

datatype copy_result = Blocked | Copied "error option"

fun io_Copy :: "reader \<Rightarrow> processStream \<Rightarrow> copy_result \<times> processStream" where
  "io_Copy [] s = (Blocked, s)"
| "io_Copy ((buf, er) # rs) s =
     (case (if buf \<noteq> [] then stdinWriter_Write s buf else (None, s)) of
        (Some ew, s') \<Rightarrow> (Copied (Some ew), s')
      | (None, s') \<Rightarrow>
          (case er of
             Some e \<Rightarrow> (Copied (if e = EOF then None else Some e), s')
           | None \<Rightarrow> io_Copy rs s'))"

text \<open>
  The goroutine that \<open>streamPayloads\<close> starts when \<open>processIO.Stdin\<close> is not nil:
  after the copy, \<open>writer.Close()\<close> if it ended without error, \<open>p.stream.Close()\<close>
  otherwise.  It runs beside the receive loop and shares only the stream with it, so
  it is a function of its own, from the stream as it finds it to the stream as it
  leaves it.
\<close>

definition stdin_goroutine :: "reader \<Rightarrow> processStream \<Rightarrow> processStream" where
  "stdin_goroutine r s =
     (case io_Copy r s of
        (Blocked, s') \<Rightarrow> s'
      | (Copied None, s') \<Rightarrow> snd (stdinWriter_Close s')
      | (Copied (Some e), s') \<Rightarrow> Close s')"


text \<open>
  The \<open>switch\<close> on the payload's source: a write to the matching handle when there is
  one, nothing for any other source.
\<close>

definition dispatch :: "ProcessPayload \<Rightarrow> ProcessIO \<Rightarrow> ProcessIO" where
  "dispatch payload processIO =
     (case GetSource payload of
        ProcessPayload_stdout \<Rightarrow>
          (case Stdout processIO of
             Some w \<Rightarrow> processIO\<lparr>Stdout := Some (w @ [GetData payload])\<rparr>
           | None \<Rightarrow> processIO)
      | ProcessPayload_stderr \<Rightarrow>
          (case Stderr processIO of
             Some w \<Rightarrow> processIO\<lparr>Stderr := Some (w @ [GetData payload])\<rparr>
           | None \<Rightarrow> processIO)
      | ProcessPayload_stdin \<Rightarrow> processIO)"

text \<open>
  The decoder is the list of the results of its successive \<open>Decode\<close> calls: an error or
  a payload.  The loop of \<open>streamPayloads\<close> takes them one at a time.  Each \<open>break\<close>
  leaves the function, and the deferred \<open>p.stream.Close()\<close> runs then
  (\<open>returned\<close>).  When the list is used up the loop is waiting in \<open>Decode\<close>: nothing
  has been delivered and nothing has been closed by it.  The loop never reads the
  stream, so its results are the same whatever the stdin goroutine has done to it.
\<close>

type_synonym decoder = "(error + ProcessPayload) list"

definition returned :: "process \<Rightarrow> process" where
  "returned p = p\<lparr>stream := Close (stream p)\<rparr>"

fun streamPayloads :: "decoder \<Rightarrow> process \<times> ProcessIO \<Rightarrow> process \<times> ProcessIO" where
  "streamPayloads [] (p, processIO) = (p, processIO)"
| "streamPayloads (Inl err # ds) (p, processIO) =
     (returned (exited 0 (Some err) p), processIO)"
| "streamPayloads (Inr payload # ds) (p, processIO) =
     (if Error payload \<noteq> None then
        (returned (exited 0 (Some (errorString (''process error: '' @ GetError payload))) p),
         processIO)
      else if ExitStatus payload \<noteq> None then
        (returned (exited (uint (GetExitStatus payload)) None p), processIO)
      else streamPayloads ds (p, dispatch payload processIO))"

section \<open>Process specifications and the Run request\<close>

text \<open>
  Modelled from the spec: package \<open>api\<close> is not among the sources.  \<open>api.ProcessSpec\<close>
  is the process spec of the data model: path, args, env, working dir, privileged flag,
  user, the fifteen optional rlimits and the optional TTY with its optional window
  size; the field names are the ones the client's \<open>Run\<close> reads.  A pointer field is an
  option.  \<open>Columns\<close> and \<open>Rows\<close> are Go \<open>int\<close>s; \<open>uint32(x)\<close> keeps the low 32 bits
  (\<^term>\<open>word_of_int\<close>).
\<close>

record api_WindowSize =
  Columns :: int
  Rows :: int

record api_TTYSpec =
  WindowSize :: "api_WindowSize option"

record api_ResourceLimits =
  Limits_As :: "uint64 option"
  Limits_Core :: "uint64 option"
  Limits_Cpu :: "uint64 option"
  Limits_Data :: "uint64 option"
  Limits_Fsize :: "uint64 option"
  Limits_Locks :: "uint64 option"
  Limits_Memlock :: "uint64 option"
  Limits_Msgqueue :: "uint64 option"
  Limits_Nice :: "uint64 option"
  Limits_Nofile :: "uint64 option"
  Limits_Nproc :: "uint64 option"
  Limits_Rss :: "uint64 option"
  Limits_Rtprio :: "uint64 option"
  Limits_Sigpending :: "uint64 option"
  Limits_Stack :: "uint64 option"

record ProcessSpec =
  Path :: string
  Args :: "string list"
  Env :: "string list"
  Dir :: string
  Privileged :: bool
  User :: string
  Limits :: api_ResourceLimits
  TTY :: "api_TTYSpec option"

text \<open>
  Modelled from the spec: the message types \<open>protocol.ResourceLimits\<close> and
  \<open>protocol.RunRequest\<close> are not among the sources; their fields are the ones the
  client's \<open>Run\<close> fills in.
\<close>

record protocol_ResourceLimits =
  Rlimits_As :: "uint64 option"
  Rlimits_Core :: "uint64 option"
  Rlimits_Cpu :: "uint64 option"
  Rlimits_Data :: "uint64 option"
  Rlimits_Fsize :: "uint64 option"
  Rlimits_Locks :: "uint64 option"
  Rlimits_Memlock :: "uint64 option"
  Rlimits_Msgqueue :: "uint64 option"
  Rlimits_Nice :: "uint64 option"
  Rlimits_Nofile :: "uint64 option"
  Rlimits_Nproc :: "uint64 option"
  Rlimits_Rss :: "uint64 option"
  Rlimits_Rtprio :: "uint64 option"
  Rlimits_Sigpending :: "uint64 option"
  Rlimits_Stack :: "uint64 option"

record RunRequest =
  Run_Handle :: "string option"
  Run_Path :: "string option"
  Run_Args :: "string list"
  Run_Dir :: "string option"
  Run_Privileged :: "bool option"
  Run_User :: "string option"
  Run_Tty :: "protocol_TTY option"
  Run_Rlimits :: "protocol_ResourceLimits option"
  Run_Env :: "EnvironmentVariable list"

text \<open>The window size of a TTY, as \<open>Run\<close> and \<open>SetTTY\<close> both convert it.\<close>

definition convertWindowSize :: "api_WindowSize \<Rightarrow> TTY_WindowSize" where
  "convertWindowSize ws =
     \<lparr>Columns_p = Some (word_of_int (Columns ws)), Rows_p = Some (word_of_int (Rows ws))\<rparr>"

definition convertTTY :: "api_TTYSpec \<Rightarrow> protocol_TTY" where
  "convertTTY spec = \<lparr>WindowSize_p = map_option convertWindowSize (WindowSize spec)\<rparr>"

definition SetTTY :: "processStream \<Rightarrow> api_TTYSpec \<Rightarrow> error option \<times> processStream" where
  "SetTTY s spec =
     sendPayload s (ProcessPayload_empty
       \<lparr>ProcessId := Some (id_s s), Tty := Some (convertTTY spec)\<rparr>)"

text \<open>
  The request that \<open>Run\<close> encodes: the \<open>protocol.RunRequest\<close> literal, with \<open>dir\<close>
  left nil for the empty string and \<open>tty\<close> left nil when the spec has none.  Building
  it calls \<open>convertEnvironmentVariables\<close>, so it can panic.
\<close>

definition Run_request :: "string \<Rightarrow> ProcessSpec \<Rightarrow> panic + RunRequest" where
  "Run_request handle spec =
     (let dir = (if Dir spec \<noteq> [] then Some (Dir spec) else None);
          tty = map_option convertTTY (TTY spec)
      in case convertEnvironmentVariables (Env spec) of
           Inl p \<Rightarrow> Inl p
         | Inr env \<Rightarrow>
             Inr \<lparr>Run_Handle = Some handle,
                  Run_Path = Some (Path spec),
                  Run_Args = Args spec,
                  Run_Dir = dir,
                  Run_Privileged = Some (Privileged spec),
                  Run_User = Some (User spec),
                  Run_Tty = tty,
                  Run_Rlimits = Some
                    \<lparr>Rlimits_As = Limits_As (Limits spec),
                     Rlimits_Core = Limits_Core (Limits spec),
                     Rlimits_Cpu = Limits_Cpu (Limits spec),
                     Rlimits_Data = Limits_Data (Limits spec),
                     Rlimits_Fsize = Limits_Fsize (Limits spec),
                     Rlimits_Locks = Limits_Locks (Limits spec),
                     Rlimits_Memlock = Limits_Memlock (Limits spec),
                     Rlimits_Msgqueue = Limits_Msgqueue (Limits spec),
                     Rlimits_Nice = Limits_Nice (Limits spec),
                     Rlimits_Nofile = Limits_Nofile (Limits spec),
                     Rlimits_Nproc = Limits_Nproc (Limits spec),
                     Rlimits_Rss = Limits_Rss (Limits spec),
                     Rlimits_Rtprio = Limits_Rtprio (Limits spec),
                     Rlimits_Sigpending = Limits_Sigpending (Limits spec),
                     Rlimits_Stack = Limits_Stack (Limits spec)\<rparr>,
                  Run_Env = env\<rparr>)"

text \<open>
  Modelled from the spec: the server's handler for Run is not among the sources.  It
  decodes the request and hands the backend a \<open>ProcessSpec\<close>: path, args, dir, user,
  env as \<open>KEY=VALUE\<close> entries, the privileged flag, the TTY (optional, with its
  window size) and the fifteen optional rlimits; an absent field takes its default.
  The wire codec between the two is taken to deliver the request as it was encoded.
\<close>

definition server_ResourceLimits :: "protocol_ResourceLimits option \<Rightarrow> api_ResourceLimits" where
  "server_ResourceLimits rl =
     \<lparr>Limits_As = Option.bind rl Rlimits_As,
      Limits_Core = Option.bind rl Rlimits_Core,
      Limits_Cpu = Option.bind rl Rlimits_Cpu,
      Limits_Data = Option.bind rl Rlimits_Data,
      Limits_Fsize = Option.bind rl Rlimits_Fsize,
      Limits_Locks = Option.bind rl Rlimits_Locks,
      Limits_Memlock = Option.bind rl Rlimits_Memlock,
      Limits_Msgqueue = Option.bind rl Rlimits_Msgqueue,
      Limits_Nice = Option.bind rl Rlimits_Nice,
      Limits_Nofile = Option.bind rl Rlimits_Nofile,
      Limits_Nproc = Option.bind rl Rlimits_Nproc,
      Limits_Rss = Option.bind rl Rlimits_Rss,
      Limits_Rtprio = Option.bind rl Rlimits_Rtprio,
      Limits_Sigpending = Option.bind rl Rlimits_Sigpending,
      Limits_Stack = Option.bind rl Rlimits_Stack\<rparr>"

definition server_WindowSize :: "TTY_WindowSize \<Rightarrow> api_WindowSize" where
  "server_WindowSize ws =
     \<lparr>Columns = uint (case Columns_p ws of Some c \<Rightarrow> c | None \<Rightarrow> 0),
      Rows = uint (case Rows_p ws of Some r \<Rightarrow> r | None \<Rightarrow> 0)\<rparr>"

definition server_TTY :: "protocol_TTY \<Rightarrow> api_TTYSpec" where
  "server_TTY t = \<lparr>WindowSize = map_option server_WindowSize (WindowSize_p t)\<rparr>"

definition server_Env :: "EnvironmentVariable \<Rightarrow> string" where
  "server_Env e =
     (case Key e of Some k \<Rightarrow> k | None \<Rightarrow> []) @ ''='' @
     (case Value e of Some v \<Rightarrow> v | None \<Rightarrow> [])"

definition server_ProcessSpec :: "RunRequest \<Rightarrow> ProcessSpec" where
  "server_ProcessSpec request =
     \<lparr>Path = (case Run_Path request of Some x \<Rightarrow> x | None \<Rightarrow> []),
      Args = Run_Args request,
      Env = map server_Env (Run_Env request),
      Dir = (case Run_Dir request of Some x \<Rightarrow> x | None \<Rightarrow> []),
      Privileged = (case Run_Privileged request of Some b \<Rightarrow> b | None \<Rightarrow> False),
      User = (case Run_User request of Some x \<Rightarrow> x | None \<Rightarrow> []),
      Limits = server_ResourceLimits (Run_Rlimits request),
      TTY = map_option server_TTY (Run_Tty request)\<rparr>"

text \<open>What the backend receives for a spec the client sends, if anything.\<close>

definition Run_roundtrip :: "string \<Rightarrow> ProcessSpec \<Rightarrow> panic + ProcessSpec" where
  "Run_roundtrip handle spec = map_sum id server_ProcessSpec (Run_request handle spec)"

section \<open>Requests and their error surface\<close>

text \<open>
  What the client's code reads of an HTTP response: the status code, the status line
  and the body, the body being what \<open>ioutil.ReadAll\<close> returns for it (the bytes and
  the error, if any).
\<close>

record http_Response =
  StatusCode :: int
  Status :: string
  Body :: "bytes \<times> error option"

text \<open>
  \<open>doStream\<close>.  The results of \<open>CreateRequest\<close> and of the HTTP client's \<open>Do\<close> are
  arguments.  \<open>fmt.Errorf(string(errResponse))\<close> uses the body as a format with no
  operands: \<open>Sprintf\<close> stands for what package \<open>fmt\<close> prints for such a format.
  \<open>fmt.Errorf("bad response: %s", httpResp.Status)\<close> inserts the status line.
\<close>

definition doStream ::
  "(string \<Rightarrow> string) \<Rightarrow> error option \<Rightarrow> error + http_Response \<Rightarrow>
   error + bytes \<times> error option" where
  "doStream Sprintf createRequest Do =
     (case createRequest of
        Some err \<Rightarrow> Inl err
      | None \<Rightarrow>
          (case Do of
             Inl err \<Rightarrow> Inl err
           | Inr httpResp \<Rightarrow>
               if StatusCode httpResp < 200 \<or> StatusCode httpResp > 299 then
                 (case Body httpResp of
                    (errResponse, Some err) \<Rightarrow>
                      Inl (errorString (''bad response: '' @ Status httpResp))
                  | (errResponse, None) \<Rightarrow> Inl (errorString (Sprintf errResponse)))
               else Inr (Body httpResp)))"

text \<open>
  \<open>do\<close>, the path of every unary call: encode the request if there is one, go through
  \<open>doStream\<close>, decode the response body.  The encoding's error and the decoding are
  arguments.
\<close>

definition do ::
  "(string \<Rightarrow> string) \<Rightarrow> error option \<Rightarrow> error option \<Rightarrow> error + http_Response \<Rightarrow>
   (bytes \<times> error option \<Rightarrow> error option) \<Rightarrow> error option" where
  "do Sprintf writeMessage createRequest Do decode =
     (case writeMessage of
        Some err \<Rightarrow> Some err
      | None \<Rightarrow>
          (case doStream Sprintf createRequest Do of
             Inl err \<Rightarrow> Some err
           | Inr response \<Rightarrow> decode response))"

text \<open>
  \<open>doHijack\<close>, the path of \<open>Run\<close> and \<open>Attach\<close>: the dialer's result is one more
  argument.  On a status outside 200..299 the body is closed unread.  On success the
  connection and its buffered reader are handed over.
\<close>

definition doHijack ::
  "error option \<Rightarrow> error + net_Conn \<Rightarrow> error + http_Response \<Rightarrow>
   error + net_Conn \<times> (bytes \<times> error option)" where
  "doHijack createRequest dialer Do =
     (case createRequest of
        Some err \<Rightarrow> Inl err
      | None \<Rightarrow>
          (case dialer of
             Inl err \<Rightarrow> Inl err
           | Inr c \<Rightarrow>
               (case Do of
                  Inl err \<Rightarrow> Inl err
                | Inr httpResp \<Rightarrow>
                    if StatusCode httpResp < 200 \<or> StatusCode httpResp > 299 then
                      Inl (errorString (''bad response: '' @ Status httpResp))
                    else Inr (c, Body httpResp))))"

section \<open>Durations and the grace time\<close>

text \<open>
  A \<open>time.Duration\<close> is a count of nanoseconds.  Go's integer division truncates
  towards zero and the remainder has the sign of the dividend.
\<close>

definition Second :: int where
  "Second = 1000000000"

definition go_quot :: "int \<Rightarrow> int \<Rightarrow> int" where
  "go_quot a b = (if (a < 0) = (b < 0) then \<bar>a\<bar> div \<bar>b\<bar> else - (\<bar>a\<bar> div \<bar>b\<bar>))"

definition go_rem :: "int \<Rightarrow> int \<Rightarrow> int" where
  "go_rem a b = a - b * go_quot a b"

text \<open>
  A \<open>float64\<close> is the real number it stands for.  \<open>float64 x\<close> is the double nearest
  to the real \<open>x\<close>, ties going to the even significand: with \<open>2 ^ e \<le> \<bar>x\<bar> < 2 ^ (e + 1)\<close>
  the doubles around \<open>x\<close> are the multiples of \<open>2 ^ (e - 52)\<close>.  Every operation of
  \<open>float64\<close> arithmetic is the exact operation followed by this rounding.  (The
  numbers met here are far from the subnormal range and from overflow.)
\<close>

definition ilog2 :: "real \<Rightarrow> int" where
  "ilog2 x =
     (if 1 \<le> x then bitlen \<lfloor>x\<rfloor> - 1
      else (let b = bitlen \<lfloor>1 / x\<rfloor> - 1 in if x * 2 powi b = 1 then - b else - b - 1))"

definition round_even :: "real \<Rightarrow> int" where
  "round_even q =
     (let f = \<lfloor>q\<rfloor>; r = q - of_int f
      in if r < 1 / 2 then f else if 1 / 2 < r then f + 1 else if even f then f else f + 1)"

definition float64 :: "real \<Rightarrow> real" where
  "float64 x =
     (if x = 0 then 0
      else (let ulp = 2 powi (ilog2 \<bar>x\<bar> - 52) in of_int (round_even (x / ulp)) * ulp))"

text \<open>
  \<open>Duration.Seconds\<close> of package \<open>time\<close>:
  \<^verbatim>\<open>sec := d / Second; nsec := d % Second; return float64(sec) + float64(nsec)/1e9\<close>
\<close>

definition Seconds :: "int \<Rightarrow> real" where
  "Seconds d =
     (let sec = go_quot d Second; nsec = go_rem d Second
      in float64 (float64 (of_int sec) + float64 (float64 (of_int nsec) / float64 1000000000)))"

text \<open>
  \<open>uint32(f)\<close> of a \<open>float64\<close>: the fraction is discarded (truncation towards zero).
  When the truncated value does not fit the type, the language leaves the result to
  the implementation: \<open>impl\<close> stands for what it gives.
\<close>

definition truncate_float64 :: "real \<Rightarrow> int" where
  "truncate_float64 f = (if 0 \<le> f then \<lfloor>f\<rfloor> else \<lceil>f\<rceil>)"

definition uint32_of_float64 :: "(real \<Rightarrow> uint32) \<Rightarrow> real \<Rightarrow> uint32" where
  "uint32_of_float64 impl f =
     (if 0 \<le> truncate_float64 f \<and> truncate_float64 f < 2 ^ 32
      then word_of_int (truncate_float64 f) else impl f)"

section \<open>Container specifications and the Create request\<close>

text \<open>
  Modelled from the spec: package \<open>api\<close> and the message \<open>protocol.CreateRequest\<close>
  are not among the sources.  A bind mount has a mode in \<open>{RO, RW}\<close> and an origin in
  \<open>{Host, Container}\<close>; the properties are a mapping from strings to strings, kept
  here as the list of its entries in the order the \<open>range\<close> loop visits them.
  \<open>ContainerEnv\<close> is \<open>None\<close> for a nil slice, which \<open>Create\<close> tells from an empty
  one.
\<close>

datatype BindMountMode = BindMountModeRO | BindMountModeRW
datatype BindMountOrigin = BindMountOriginHost | BindMountOriginContainer

record BindMount =
  SrcPath :: string
  DstPath :: string
  Mode :: BindMountMode
  Origin :: BindMountOrigin

record ContainerSpec =
  Handle :: string
  GraceTime :: int
  RootFSPath :: string
  BindMounts :: "BindMount list"
  Network :: string
  Properties :: "(string \<times> string) list"
  ContainerEnv :: "string list option"
  ContainerPrivileged :: bool

datatype CreateRequest_BindMount_Mode = CreateRequest_BindMount_RO | CreateRequest_BindMount_RW
datatype CreateRequest_BindMount_Origin =
  CreateRequest_BindMount_Host | CreateRequest_BindMount_Container

record CreateRequest_BindMount =
  BindMount_SrcPath :: "string option"
  BindMount_DstPath :: "string option"
  BindMount_Mode :: "CreateRequest_BindMount_Mode option"
  BindMount_Origin :: "CreateRequest_BindMount_Origin option"

record Property =
  Property_Key :: "string option"
  Property_Value :: "string option"

record CreateRequest =
  Create_Handle :: "string option"
  Create_Rootfs :: "string option"
  Create_GraceTime :: "uint32 option"
  Create_Network :: "string option"
  Create_Env :: "EnvironmentVariable list option"
  Create_Privileged :: "bool option"
  Create_BindMounts :: "CreateRequest_BindMount list"
  Create_Properties :: "Property list"

definition convertBindMount :: "BindMount \<Rightarrow> CreateRequest_BindMount" where
  "convertBindMount bm =
     \<lparr>BindMount_SrcPath = Some (SrcPath bm),
      BindMount_DstPath = Some (DstPath bm),
      BindMount_Mode = Some
        (case Mode bm of
           BindMountModeRO \<Rightarrow> CreateRequest_BindMount_RO
         | BindMountModeRW \<Rightarrow> CreateRequest_BindMount_RW),
      BindMount_Origin = Some
        (case Origin bm of
           BindMountOriginHost \<Rightarrow> CreateRequest_BindMount_Host
         | BindMountOriginContainer \<Rightarrow> CreateRequest_BindMount_Container)\<rparr>"

text \<open>
  The request that \<open>Create\<close> sends: each optional field is set only when the guard of
  its \<open>if\<close> holds.  The environment goes through \<open>convertEnvironmentVariables\<close>, so
  building the request can panic.
\<close>

definition Create_request :: "(real \<Rightarrow> uint32) \<Rightarrow> ContainerSpec \<Rightarrow> panic + CreateRequest" where
  "Create_request impl spec =
     (case (case ContainerEnv spec of
              None \<Rightarrow> Inr None
            | Some env \<Rightarrow> map_sum id Some (convertEnvironmentVariables env)) of
        Inl p \<Rightarrow> Inl p
      | Inr env \<Rightarrow>
          Inr \<lparr>Create_Handle = (if Handle spec \<noteq> [] then Some (Handle spec) else None),
               Create_Rootfs = (if RootFSPath spec \<noteq> [] then Some (RootFSPath spec) else None),
               Create_GraceTime =
                 (if GraceTime spec \<noteq> 0
                  then Some (uint32_of_float64 impl (Seconds (GraceTime spec))) else None),
               Create_Network = (if Network spec \<noteq> [] then Some (Network spec) else None),
               Create_Env = env,
               Create_Privileged = Some (ContainerPrivileged spec),
               Create_BindMounts = map convertBindMount (BindMounts spec),
               Create_Properties =
                 map (\<lambda>(key, val). \<lparr>Property_Key = Some key, Property_Value = Some val\<rparr>)
                   (Properties spec)\<rparr>)"

section \<open>Concurrent senders\<close>

text \<open>
  Goroutines are numbered.  What a goroutine does to a stream is a list of events: it
  takes the stream's mutex, it makes one write on the connection, it releases the
  mutex.  \<open>Write payload i\<close> is the \<open>i\<close>-th write of the bytes of the record
  \<open>payload\<close>.
\<close>

type_synonym goroutine = nat

datatype event = Lock | Write ProcessPayload nat | Unlock

text \<open>
  One call of \<open>sendPayload\<close>, as events: \<open>s.Lock()\<close>, the writes that
  \<open>transport.WriteMessage\<close> makes on the connection, \<open>s.Unlock()\<close>.  The unlock is there
  on both paths, after an error and after success.  \<open>WriteMessage\<close> is not among the
  sources: \<open>n\<close> is the number of writes it gets to make in this call, all the writes of
  the record when it succeeds, fewer when one of them fails.
\<close>

definition sendPayload_events :: "nat \<Rightarrow> ProcessPayload \<Rightarrow> event list" where
  "sendPayload_events n payload = Lock # map (Write payload) [0..<n] @ [Unlock]"

text \<open>
  The four operations that write a record, each one call of \<open>sendPayload\<close> with the
  payload it builds.
\<close>

datatype call = WriteStdin_call bytes | CloseStdin_call | SetTTY_call api_TTYSpec | Kill_call

fun call_payload :: "uint32 \<Rightarrow> call \<Rightarrow> ProcessPayload" where
  "call_payload i (WriteStdin_call data) =
     ProcessPayload_empty
       \<lparr>ProcessId := Some i, Source := Some ProcessPayload_stdin, Data := Some data\<rparr>"
| "call_payload i CloseStdin_call =
     ProcessPayload_empty\<lparr>ProcessId := Some i, Source := Some ProcessPayload_stdin\<rparr>"
| "call_payload i (SetTTY_call spec) =
     ProcessPayload_empty\<lparr>ProcessId := Some i, Tty := Some (convertTTY spec)\<rparr>"
| "call_payload i Kill_call =
     ProcessPayload_empty\<lparr>ProcessId := Some i, Signal := Some ProcessPayload_kill\<rparr>"

text \<open>
  A goroutine that only ever calls these operations on the stream: its events are
  those of its calls, one call after the other.
\<close>

definition goroutine_events :: "(ProcessPayload \<times> nat) list \<Rightarrow> event list" where
  "goroutine_events sends = concat (map (\<lambda>(payload, n). sendPayload_events n payload) sends)"

text \<open>
  The mutex, as \<open>sync.Mutex\<close> behaves: \<open>Lock\<close> goes through only while no goroutine
  holds the mutex, and then the caller holds it; \<open>Unlock\<close> frees a held mutex and is a
  fatal error on a free one; the mutex never holds back a write.  \<open>None\<close> is a step
  that cannot be taken.
\<close>

definition mutex_step :: "goroutine option \<Rightarrow> goroutine \<Rightarrow> event \<Rightarrow> goroutine option option" where
  "mutex_step holder g e =
     (case e of
        Lock \<Rightarrow> (if holder = None then Some (Some g) else None)
      | Write payload i \<Rightarrow> Some holder
      | Unlock \<Rightarrow> (if holder = None then None else Some None))"

text \<open>
  A schedule is the list of the events of all goroutines in the order they happen.
  \<open>runs holder ts sched\<close>: from the state where \<open>holder\<close> holds the mutex (if any) and
  each goroutine \<open>g\<close> still has the events \<open>ts g\<close> before it, the events can happen
  in the order of \<open>sched\<close>: each is the next event of its goroutine and the mutex lets
  it through.
\<close>

fun runs :: "goroutine option \<Rightarrow> (goroutine \<Rightarrow> event list) \<Rightarrow> (goroutine \<times> event) list \<Rightarrow> bool" where
  "runs holder ts [] = True"
| "runs holder ts ((g, e) # sched) =
     (case ts g of
        [] \<Rightarrow> False
      | e' # es \<Rightarrow>
          e' = e \<and>
          (case mutex_step holder g e of
             None \<Rightarrow> False
           | Some holder' \<Rightarrow> runs holder' (ts(g := es)) sched))"

text \<open>Every write of the schedule is made by the goroutine that holds the mutex then.\<close>

fun writes_by_holder :: "goroutine option \<Rightarrow> (goroutine \<times> event) list \<Rightarrow> bool" where
  "writes_by_holder holder [] = True"
| "writes_by_holder holder ((g, Lock) # sched) = writes_by_holder (Some g) sched"
| "writes_by_holder holder ((g, Write payload i) # sched) =
     (holder = Some g \<and> writes_by_holder holder sched)"
| "writes_by_holder holder ((g, Unlock) # sched) = writes_by_holder None sched"

text \<open>
  What arrives on the wire: the writes of the schedule, in order.  \<open>whole_runs\<close> is a
  wire on which the writes of one record follow each other from its first write on,
  record after record: \<open>(payload, n)\<close> stands for the first \<open>n\<close> writes of \<open>payload\<close>.
\<close>

fun wire_of :: "(goroutine \<times> event) list \<Rightarrow> (ProcessPayload \<times> nat) list" where
  "wire_of [] = []"
| "wire_of ((g, Write payload i) # sched) = (payload, i) # wire_of sched"
| "wire_of ((g, Lock) # sched) = wire_of sched"
| "wire_of ((g, Unlock) # sched) = wire_of sched"

definition whole_runs :: "(ProcessPayload \<times> nat) list \<Rightarrow> (ProcessPayload \<times> nat) list" where
  "whole_runs secs = concat (map (\<lambda>(payload, n). map (Pair payload) [0..<n]) secs)"

section \<open>Notions used to state the properties\<close>



section \<open>Properties\<close>

subsection \<open>The receive loop\<close>

lemma Wait_returned [simp]: "Wait (returned p) = Wait p"
  by (simp add: Wait_def returned_def)

lemma Wait_exited [simp]: "Wait (exited status err p) = Some (status, err)"
  by (simp add: Wait_def exited_def)

lemma closed_returned [simp]: "closed (conn (stream (returned p)))"
  by (simp add: returned_def Close_def conn_Close_def)

text \<open>Payloads that carry neither an error nor an exit status are dispatched one by one.\<close>

lemma streamPayloads_live_prefix:
  "\<forall>q \<in> set pre. Error q = None \<and> ExitStatus q = None \<Longrightarrow>
   streamPayloads (map Inr pre @ ds) (p, processIO) =
   streamPayloads ds (p, fold dispatch pre processIO)"
  by (induction pre arbitrary: processIO) simp_all

text \<open>
  C1, as the code has it.  The loop looks at the error field before the exit status, so
  the exit status is delivered when the payload carries an exit status and no error:
  after the payloads \<open>pre\<close> that end nothing, such a payload makes every \<open>Wait\<close>
  return its exit status with no error, the connection is closed, and whatever follows
  the payload on the stream (\<open>rest\<close>) changes nothing.
\<close>

theorem streamPayloads_exit_status:
  assumes "\<forall>q \<in> set pre. Error q = None \<and> ExitStatus q = None"
    and "ExitStatus payload = Some status"
    and "Error payload = None"
  shows "Wait (fst (streamPayloads (map Inr pre @ Inr payload # rest) (p, processIO)))
           = Some (uint status, None)
       \<and> closed (conn (stream (fst
            (streamPayloads (map Inr pre @ Inr payload # rest) (p, processIO)))))
       \<and> streamPayloads (map Inr pre @ Inr payload # rest) (p, processIO)
           = streamPayloads (map Inr pre @ [Inr payload]) (p, processIO)"
  using assms by (simp add: streamPayloads_live_prefix GetExitStatus_def)

theorem streamPayloads_exit_status_witness:
  "Wait (fst (streamPayloads
        [Inr (ProcessPayload_empty\<lparr>Source := Some ProcessPayload_stdout, Data := Some ''a''\<rparr>),
         Inr (ProcessPayload_empty\<lparr>ExitStatus := Some 123\<rparr>),
         Inr (ProcessPayload_empty\<lparr>ExitStatus := Some 7\<rparr>)]
        (newProcess 42 \<lparr>closed = False, wire = []\<rparr>,
         \<lparr>Stdin = None, Stdout = Some [], Stderr = None\<rparr>)))
     = Some (123, None)"
  using streamPayloads_exit_status
    [of "[ProcessPayload_empty\<lparr>Source := Some ProcessPayload_stdout, Data := Some ''a''\<rparr>]"
        "ProcessPayload_empty\<lparr>ExitStatus := Some 123\<rparr>" 123
        "[Inr (ProcessPayload_empty\<lparr>ExitStatus := Some 7\<rparr>)]"
        "newProcess 42 \<lparr>closed = False, wire = []\<rparr>"
        "\<lparr>Stdin = None, Stdout = Some [], Stderr = None\<rparr>"]
  by (simp add: ProcessPayload_empty_def)

text \<open>
  A payload with its exit status set to 3 and its error set as well: \<open>Wait\<close> returns
  status 0 and an error, not \<open>(3, nil)\<close>.
\<close>

theorem streamPayloads_exit_status_with_error:
  "ExitStatus (ProcessPayload_empty\<lparr>ExitStatus := Some 3, Error := Some ''x''\<rparr>) = Some 3
   \<and> Wait (fst (streamPayloads
        [Inr (ProcessPayload_empty\<lparr>ExitStatus := Some 3, Error := Some ''x''\<rparr>)]
        (newProcess 42 \<lparr>closed = False, wire = []\<rparr>,
         \<lparr>Stdin = None, Stdout = None, Stderr = None\<rparr>)))
     = Some (0, Some (errorString ''process error: x''))"
  by (simp add: ProcessPayload_empty_def GetError_def)

lemma Stdout_dispatch:
  "Stdout processIO = Some out \<Longrightarrow>
   Stdout (dispatch q processIO) =
     Some (out @ (if GetSource q = ProcessPayload_stdout then [GetData q] else []))"
  by (simp add: dispatch_def split: ProcessPayload_Source.splits option.splits)

lemma Stderr_dispatch:
  "Stderr processIO = Some out \<Longrightarrow>
   Stderr (dispatch q processIO) =
     Some (out @ (if GetSource q = ProcessPayload_stderr then [GetData q] else []))"
  by (simp add: dispatch_def split: ProcessPayload_Source.splits option.splits)

lemma Stdout_None_dispatch: "Stdout processIO = None \<Longrightarrow> Stdout (dispatch q processIO) = None"
  by (simp add: dispatch_def split: ProcessPayload_Source.splits option.splits)

lemma Stderr_None_dispatch: "Stderr processIO = None \<Longrightarrow> Stderr (dispatch q processIO) = None"
  by (simp add: dispatch_def split: ProcessPayload_Source.splits option.splits)

lemma Stdout_fold_dispatch:
  "Stdout processIO = Some out \<Longrightarrow>
   Stdout (fold dispatch ps processIO) =
     Some (out @ map GetData (filter (\<lambda>q. GetSource q = ProcessPayload_stdout) ps))"
  by (induction ps arbitrary: processIO out) (simp_all add: Stdout_dispatch)

lemma Stderr_fold_dispatch:
  "Stderr processIO = Some out \<Longrightarrow>
   Stderr (fold dispatch ps processIO) =
     Some (out @ map GetData (filter (\<lambda>q. GetSource q = ProcessPayload_stderr) ps))"
  by (induction ps arbitrary: processIO out) (simp_all add: Stderr_dispatch)

lemma Stdout_None_fold_dispatch:
  "Stdout processIO = None \<Longrightarrow> Stdout (fold dispatch ps processIO) = None"
  by (induction ps arbitrary: processIO) (simp_all add: Stdout_None_dispatch)

lemma Stderr_None_fold_dispatch:
  "Stderr processIO = None \<Longrightarrow> Stderr (fold dispatch ps processIO) = None"
  by (induction ps arbitrary: processIO) (simp_all add: Stderr_None_dispatch)

lemma streamPayloads_dispatched:
  assumes "\<forall>q \<in> set ps. Error q = None \<and> ExitStatus q = None"
    and "rest = [] \<or> (\<exists>err ds. rest = Inl err # ds)
         \<or> (\<exists>q ds. rest = Inr q # ds \<and> (Error q \<noteq> None \<or> ExitStatus q \<noteq> None))"
  shows "snd (streamPayloads (map Inr ps @ rest) (p, processIO)) = fold dispatch ps processIO"
  using assms(2) by (auto simp: streamPayloads_live_prefix[OF assms(1)])

text \<open>
  C2, as the code has it.  After records that carry neither an error nor an exit
  status (\<open>ps\<close>), and before anything that ends the stream or with nothing more
  decoded yet (\<open>rest\<close>), the slices written to \<open>processIO.Stdout\<close> are the data fields
  of the records of \<open>ps\<close> with source stdout, in the order they were decoded and as
  they were decoded, after what the writer held before; likewise for stderr and
  \<open>processIO.Stderr\<close>.  The record that ends the stream is not among them: its data is
  not written.  A handle that is nil stays nil: nothing is written.
\<close>

theorem streamPayloads_output_in_order:
  assumes "\<forall>q \<in> set ps. Error q = None \<and> ExitStatus q = None"
    and "rest = [] \<or> (\<exists>err ds. rest = Inl err # ds)
         \<or> (\<exists>q ds. rest = Inr q # ds \<and> (Error q \<noteq> None \<or> ExitStatus q \<noteq> None))"
  shows "(Stdout processIO = Some out \<longrightarrow>
            Stdout (snd (streamPayloads (map Inr ps @ rest) (p, processIO))) =
              Some (out @ map GetData (filter (\<lambda>q. GetSource q = ProcessPayload_stdout) ps)))
       \<and> (Stderr processIO = Some err_out \<longrightarrow>
            Stderr (snd (streamPayloads (map Inr ps @ rest) (p, processIO))) =
              Some (err_out @ map GetData (filter (\<lambda>q. GetSource q = ProcessPayload_stderr) ps)))
       \<and> (Stdout processIO = None \<longrightarrow>
            Stdout (snd (streamPayloads (map Inr ps @ rest) (p, processIO))) = None)
       \<and> (Stderr processIO = None \<longrightarrow>
            Stderr (snd (streamPayloads (map Inr ps @ rest) (p, processIO))) = None)"
  by (simp add: streamPayloads_dispatched[OF assms] Stdout_fold_dispatch Stderr_fold_dispatch
        Stdout_None_fold_dispatch Stderr_None_fold_dispatch)

theorem streamPayloads_output_in_order_witness:
  "Stdout (snd (streamPayloads
      [Inr (ProcessPayload_empty\<lparr>Source := Some ProcessPayload_stdout, Data := Some ''stdout data''\<rparr>),
       Inr (ProcessPayload_empty\<lparr>Source := Some ProcessPayload_stderr, Data := Some ''stderr data''\<rparr>),
       Inr (ProcessPayload_empty\<lparr>Source := Some ProcessPayload_stdout, Data := Some ''mirrored''\<rparr>),
       Inr (ProcessPayload_empty\<lparr>ExitStatus := Some 123\<rparr>)]
      (newProcess 42 \<lparr>closed = False, wire = []\<rparr>,
       \<lparr>Stdin = None, Stdout = Some [], Stderr = Some []\<rparr>)))
     = Some [''stdout data'', ''mirrored'']
   \<and> Stderr (snd (streamPayloads
      [Inr (ProcessPayload_empty\<lparr>Source := Some ProcessPayload_stdout, Data := Some ''stdout data''\<rparr>),
       Inr (ProcessPayload_empty\<lparr>Source := Some ProcessPayload_stderr, Data := Some ''stderr data''\<rparr>),
       Inr (ProcessPayload_empty\<lparr>Source := Some ProcessPayload_stdout, Data := Some ''mirrored''\<rparr>),
       Inr (ProcessPayload_empty\<lparr>ExitStatus := Some 123\<rparr>)]
      (newProcess 42 \<lparr>closed = False, wire = []\<rparr>,
       \<lparr>Stdin = None, Stdout = Some [], Stderr = Some []\<rparr>)))
     = Some [''stderr data'']"
  using streamPayloads_output_in_order
    [of "[ProcessPayload_empty\<lparr>Source := Some ProcessPayload_stdout, Data := Some ''stdout data''\<rparr>,
          ProcessPayload_empty\<lparr>Source := Some ProcessPayload_stderr, Data := Some ''stderr data''\<rparr>,
          ProcessPayload_empty\<lparr>Source := Some ProcessPayload_stdout, Data := Some ''mirrored''\<rparr>]"
      "[Inr (ProcessPayload_empty\<lparr>ExitStatus := Some 123\<rparr>)]"
      "\<lparr>Stdin = None, Stdout = Some [], Stderr = Some []\<rparr>" "[]"
      "newProcess 42 \<lparr>closed = False, wire = []\<rparr>" "[]"]
  by (simp add: ProcessPayload_empty_def GetSource_def GetData_def)

text \<open>
  A record with source stdout, the data \<open>last words\<close> and an exit status: nothing
  is written to \<open>processIO.Stdout\<close>.
\<close>

theorem streamPayloads_drops_terminal_data:
  "GetSource (ProcessPayload_empty\<lparr>Source := Some ProcessPayload_stdout,
      Data := Some ''last words'', ExitStatus := Some 0\<rparr>) = ProcessPayload_stdout
   \<and> GetData (ProcessPayload_empty\<lparr>Source := Some ProcessPayload_stdout,
      Data := Some ''last words'', ExitStatus := Some 0\<rparr>) = ''last words''
   \<and> Stdout (snd (streamPayloads
      [Inr (ProcessPayload_empty\<lparr>Source := Some ProcessPayload_stdout,
         Data := Some ''last words'', ExitStatus := Some 0\<rparr>)]
      (newProcess 42 \<lparr>closed = False, wire = []\<rparr>,
       \<lparr>Stdin = None, Stdout = Some [], Stderr = Some []\<rparr>))) = Some []"
  by (simp add: ProcessPayload_empty_def GetSource_def GetData_def)

text \<open>
  C4.  After payloads that end nothing, a failing \<open>Decode\<close> closes the connection and
  makes every \<open>Wait\<close> return status 0 with the decoder's error.
\<close>

theorem streamPayloads_decode_error:
  assumes "\<forall>q \<in> set pre. Error q = None \<and> ExitStatus q = None"
  shows "Wait (fst (streamPayloads (map Inr pre @ Inl err # rest) (p, processIO)))
           = Some (0, Some err)
       \<and> closed (conn (stream (fst
            (streamPayloads (map Inr pre @ Inl err # rest) (p, processIO)))))"
  using assms by (simp add: streamPayloads_live_prefix)

theorem streamPayloads_decode_error_witness:
  "Wait (fst (streamPayloads
        [Inr (ProcessPayload_empty\<lparr>Source := Some ProcessPayload_stdout, Data := Some ''a''\<rparr>),
         Inl (errorString ''unexpected end of JSON input'')]
        (newProcess 42 \<lparr>closed = False, wire = []\<rparr>,
         \<lparr>Stdin = None, Stdout = Some [], Stderr = None\<rparr>)))
     = Some (0, Some (errorString ''unexpected end of JSON input''))"
  using streamPayloads_decode_error
    [of "[ProcessPayload_empty\<lparr>Source := Some ProcessPayload_stdout, Data := Some ''a''\<rparr>]"
        "errorString ''unexpected end of JSON input''" "[]"
        "newProcess 42 \<lparr>closed = False, wire = []\<rparr>"
        "\<lparr>Stdin = None, Stdout = Some [], Stderr = None\<rparr>"]
  by (simp add: ProcessPayload_empty_def)

text \<open>
  C5.  After payloads that end nothing, a payload that carries an error string makes
  every \<open>Wait\<close> return status 0 with an error whose message contains that string.
\<close>

theorem streamPayloads_terminal_error:
  assumes "\<forall>q \<in> set pre. Error q = None \<and> ExitStatus q = None"
    and "Error payload = Some msg"
  shows "\<exists>e. Wait (fst (streamPayloads (map Inr pre @ Inr payload # rest) (p, processIO)))
               = Some (0, Some e)
           \<and> sublist msg (Error_msg e)"
  using assms by (simp add: streamPayloads_live_prefix GetError_def sublist_Cons_right)

theorem streamPayloads_terminal_error_witness:
  "\<exists>e. Wait (fst (streamPayloads
        [Inr (ProcessPayload_empty\<lparr>Error := Some ''oh no!''\<rparr>)]
        (newProcess 42 \<lparr>closed = False, wire = []\<rparr>,
         \<lparr>Stdin = None, Stdout = None, Stderr = None\<rparr>))) = Some (0, Some e)
      \<and> sublist ''oh no!'' (Error_msg e)"
  using streamPayloads_terminal_error
    [of "[]" "ProcessPayload_empty\<lparr>Error := Some ''oh no!''\<rparr>" "''oh no!''" "[]"
        "newProcess 42 \<lparr>closed = False, wire = []\<rparr>"
        "\<lparr>Stdin = None, Stdout = None, Stderr = None\<rparr>"]
  by (simp add: ProcessPayload_empty_def)

subsection \<open>The stdin copy\<close>




lemma io_Copy_closed: "closed (conn s) \<Longrightarrow> snd (io_Copy r s) = s"
proof (induction r)
  case Nil
  then show ?case by simp
next
  case (Cons a r)
  obtain buf er where a: "a = (buf, er)" by (cases a)
  show ?case using Cons a
    by (simp add: stdinWriter_Write_def WriteStdin_def sendPayload_def WriteMessage_def
             split: option.splits)
qed


text \<open>
  Once the connection is closed the goroutine changes nothing any more: what the
  receive loop has closed stays closed.
\<close>

lemma stdin_goroutine_closed: "closed (conn s) \<Longrightarrow> stdin_goroutine r s = s"
proof -
  assume c: "closed (conn s)"
  obtain res s' where r: "io_Copy r s = (res, s')" by (cases "io_Copy r s")
  with io_Copy_closed[OF c, of r] have s': "s' = s" by simp
  have "Close s = s" using c by (simp add: Close_def conn_Close_def)
  then show ?thesis
    using c r s'
    by (simp add: stdin_goroutine_def stdinWriter_Close_def CloseStdin_def sendPayload_def
        WriteMessage_def split: copy_result.splits option.splits)
qed




subsection \<open>Concurrent senders\<close>

lemma goroutine_events_Nil [simp]: "goroutine_events [] = []"
  by (simp add: goroutine_events_def)

lemma goroutine_events_Cons [simp]:
  "goroutine_events ((m, n) # cs) = Lock # map (Write m) [0..<n] @ Unlock # goroutine_events cs"
  by (simp add: goroutine_events_def sendPayload_events_def)

lemma whole_runs_Nil [simp]: "whole_runs [] = []"
  by (simp add: whole_runs_def)

lemma whole_runs_Cons [simp]:
  "whole_runs ((m, n) # secs) = map (Pair m) [0..<n] @ whole_runs secs"
  by (simp add: whole_runs_def)

lemma idle_step:
  assumes "t = goroutine_events cs" and "t = e # es"
  shows "e = Lock \<and> (\<exists>m n cs'. es = map (Write m) [0..<n] @ Unlock # goroutine_events cs')"
proof (cases cs)
  case Nil
  with assms show ?thesis by simp
next
  case (Cons c cs')
  obtain m n where "c = (m, n)" by (cases c)
  with Cons assms show ?thesis by auto
qed

lemma runs_Cons:
  "runs h ts ((g, e) # sched) \<longleftrightarrow>
     (\<exists>es h'. ts g = e # es \<and> mutex_step h g e = Some h' \<and> runs h' (ts(g := es)) sched)"
  by (auto split: list.splits option.splits)

text \<open>
  The invariant.  While no goroutine holds the mutex, every goroutine is between two
  calls.  While \<open>g0\<close> holds it, \<open>g0\<close> is inside a call, with the writes from \<open>i\<close> on
  and the unlock before it, and every other goroutine is between two calls, so its
  next event is a \<open>Lock\<close>, which the mutex does not let through.
\<close>

lemma mutual_exclusion_invariant:
  "(\<forall>ts. (\<forall>g. \<exists>cs. ts g = goroutine_events cs) \<longrightarrow> runs None ts sched \<longrightarrow>
      writes_by_holder None sched \<and> (\<exists>secs. wire_of sched = whole_runs secs))
   \<and> (\<forall>ts g0 m i n cs.
         i \<le> n \<longrightarrow> ts g0 = map (Write m) [i..<n] @ Unlock # goroutine_events cs \<longrightarrow>
         (\<forall>g. g \<noteq> g0 \<longrightarrow> (\<exists>cs. ts g = goroutine_events cs)) \<longrightarrow>
         runs (Some g0) ts sched \<longrightarrow>
         writes_by_holder (Some g0) sched
         \<and> (\<exists>j secs. i \<le> j \<and> j \<le> n
               \<and> wire_of sched = map (Pair m) [i..<j] @ whole_runs secs))"
proof (induction sched)
  case Nil
  show ?case
  proof (intro conjI allI impI)
    show "\<exists>secs. wire_of [] = whole_runs secs" by (intro exI[of _ "[]"]) simp
  next
    fix m :: ProcessPayload and i n :: nat
    assume "i \<le> n"
    then show "\<exists>j secs. i \<le> j \<and> j \<le> n \<and> wire_of [] = map (Pair m) [i..<j] @ whole_runs secs"
      by (intro exI[of _ i] exI[of _ "[]"]) simp
  qed simp_all
next
  case (Cons a sched)
  obtain g e where a: "a = (g, e)" by (cases a)
  note IH1 = Cons.IH[THEN conjunct1, rule_format]
  note IH2 = Cons.IH[THEN conjunct2, rule_format]
  have part1: "writes_by_holder None (a # sched) \<and> (\<exists>secs. wire_of (a # sched) = whole_runs secs)"
    if idle: "\<forall>g. \<exists>cs. ts g = goroutine_events cs" and r: "runs None ts (a # sched)" for ts
  proof -
    from r[unfolded a runs_Cons] obtain es h' where st: "ts g = e # es"
      "mutex_step None g e = Some h'" "runs h' (ts(g := es)) sched" by blast
    from idle obtain cs where "ts g = goroutine_events cs" by blast
    from idle_step[OF this st(1)] obtain m n cs' where
      e: "e = Lock" and es: "es = map (Write m) [0..<n] @ Unlock # goroutine_events cs'" by blast
    from st(2) e have h': "h' = Some g" by (simp add: mutex_step_def)
    have "writes_by_holder (Some g) sched
         \<and> (\<exists>j secs. 0 \<le> j \<and> j \<le> n
               \<and> wire_of sched = map (Pair m) [0..<j] @ whole_runs secs)"
    proof (rule IH2[of 0 n "ts(g := es)" g m cs'])
      show "(0::nat) \<le> n" by simp
      show "(ts(g := es)) g = map (Write m) [0..<n] @ Unlock # goroutine_events cs'"
        by (simp add: es)
      show "\<exists>cs. (ts(g := es)) ga = goroutine_events cs" if "ga \<noteq> g" for ga
        using idle that by simp
      show "runs (Some g) (ts(g := es)) sched" using st(3) h' by simp
    qed
    then obtain j secs where w: "writes_by_holder (Some g) sched"
      and wire: "wire_of sched = map (Pair m) [0..<j] @ whole_runs secs" by blast
    have "wire_of (a # sched) = whole_runs ((m, j) # secs)"
      using wire a e by simp
    then have "\<exists>secs. wire_of (a # sched) = whole_runs secs" by blast
    moreover have "writes_by_holder None (a # sched)" using w a e by simp
    ultimately show ?thesis by blast
  qed
  have part2: "writes_by_holder (Some g0) (a # sched)
         \<and> (\<exists>j secs. i \<le> j \<and> j \<le> n
               \<and> wire_of (a # sched) = map (Pair m) [i..<j] @ whole_runs secs)"
    if le: "i \<le> n" and t0: "ts g0 = map (Write m) [i..<n] @ Unlock # goroutine_events cs"
      and idle: "\<forall>g. g \<noteq> g0 \<longrightarrow> (\<exists>cs. ts g = goroutine_events cs)"
      and r: "runs (Some g0) ts (a # sched)" for ts g0 m i n cs
  proof -
    from r[unfolded a runs_Cons] obtain es h' where st: "ts g = e # es"
      "mutex_step (Some g0) g e = Some h'" "runs h' (ts(g := es)) sched" by blast
    have g: "g = g0"
    proof (rule ccontr)
      assume "g \<noteq> g0"
      with idle obtain cs' where "ts g = goroutine_events cs'" by blast
      from idle_step[OF this st(1)] have "e = Lock" by blast
      with st(2) show False by (simp add: mutex_step_def)
    qed
    show ?thesis
    proof (cases "i < n")
      case True
      then have "[i..<n] = i # [Suc i..<n]" by (rule upt_conv_Cons)
      with t0 st(1) g have e: "e = Write m i"
        and es: "es = map (Write m) [Suc i..<n] @ Unlock # goroutine_events cs" by simp_all
      from st(2) e have h': "h' = Some g0" by (simp add: mutex_step_def)
      have "writes_by_holder (Some g0) sched
         \<and> (\<exists>j secs. Suc i \<le> j \<and> j \<le> n
               \<and> wire_of sched = map (Pair m) [Suc i..<j] @ whole_runs secs)"
      proof (rule IH2[of "Suc i" n "ts(g := es)" g0 m cs])
        show "Suc i \<le> n" using True by simp
        show "(ts(g := es)) g0 = map (Write m) [Suc i..<n] @ Unlock # goroutine_events cs"
          using g by (simp add: es)
        show "\<exists>cs. (ts(g := es)) ga = goroutine_events cs" if "ga \<noteq> g0" for ga
          using idle that g by simp
        show "runs (Some g0) (ts(g := es)) sched" using st(3) h' by simp
      qed
      then obtain j secs where w: "writes_by_holder (Some g0) sched"
        and j: "Suc i \<le> j" "j \<le> n"
        and wire: "wire_of sched = map (Pair m) [Suc i..<j] @ whole_runs secs" by blast
      from j have "[i..<j] = i # [Suc i..<j]" by (intro upt_conv_Cons) simp
      then have "wire_of (a # sched) = map (Pair m) [i..<j] @ whole_runs secs"
        using wire a e by simp
      moreover have "i \<le> j" using j by simp
      ultimately have "\<exists>j secs. i \<le> j \<and> j \<le> n
               \<and> wire_of (a # sched) = map (Pair m) [i..<j] @ whole_runs secs"
        using j(2) by blast
      moreover have "writes_by_holder (Some g0) (a # sched)" using w a e g by simp
      ultimately show ?thesis by blast
    next
      case False
      with le have "i = n" by simp
      with t0 st(1) g have e: "e = Unlock" and es: "es = goroutine_events cs" by simp_all
      from st(2) e have h': "h' = None" by (simp add: mutex_step_def)
      have "writes_by_holder None sched \<and> (\<exists>secs. wire_of sched = whole_runs secs)"
      proof (rule IH1[of "ts(g := es)"])
        show "\<exists>cs. (ts(g := es)) ga = goroutine_events cs" for ga
          using idle g es by (cases "ga = g0") auto
        show "runs None (ts(g := es)) sched" using st(3) h' by simp
      qed
      then obtain secs where w: "writes_by_holder None sched"
        and wire: "wire_of sched = whole_runs secs" by blast
      have "wire_of (a # sched) = map (Pair m) [i..<i] @ whole_runs secs"
        using wire a e by simp
      then have "\<exists>j secs. i \<le> j \<and> j \<le> n
               \<and> wire_of (a # sched) = map (Pair m) [i..<j] @ whole_runs secs"
        using le by blast
      moreover have "writes_by_holder (Some g0) (a # sched)" using w a e by simp
      ultimately show ?thesis by blast
    qed
  qed
  show ?case using part1 part2 by blast
qed

text \<open>The four operations are \<open>sendPayload\<close> on the payloads of the event model.\<close>

lemma calls_are_sendPayload:
  "WriteStdin s d = sendPayload s (call_payload (id_s s) (WriteStdin_call d))"
  "CloseStdin s = sendPayload s (call_payload (id_s s) CloseStdin_call)"
  "SetTTY s spec = sendPayload s (call_payload (id_s s) (SetTTY_call spec))"
  "Kill s = sendPayload s (call_payload (id_s s) Kill_call)"
  by (simp_all add: WriteStdin_def CloseStdin_def SetTTY_def Kill_def)

text \<open>
  C8.  Goroutines, any number of them, that write to a stream only through
  \<open>WriteStdin\<close>, \<open>CloseStdin\<close>, \<open>SetTTY\<close> and \<open>Kill\<close>, each call making any number of
  writes on the connection: in every schedule that the mutex allows, every write is
  made by the goroutine that holds the stream's mutex, and on the wire the writes of
  one record follow each other from its first write on, record after record; no
  write of another record comes between them.
\<close>

theorem sendPayload_records_not_interleaved:
  assumes "runs None (\<lambda>g. goroutine_events (map (\<lambda>(c, n). (call_payload sid c, n)) (prog g))) sched"
  shows "writes_by_holder None sched \<and> (\<exists>secs. wire_of sched = whole_runs secs)"
proof -
  let ?ts = "\<lambda>g. goroutine_events (map (\<lambda>(c, n). (call_payload sid c, n)) (prog g))"
  have "\<forall>g. \<exists>cs. ?ts g = goroutine_events cs" by blast
  with assms show ?thesis
    using mutual_exclusion_invariant[of sched, THEN conjunct1, rule_format, of ?ts] by blast
qed

theorem sendPayload_records_not_interleaved_witness:
  "writes_by_holder None
     [(0, Lock), (0, Write (call_payload 42 (WriteStdin_call ''a'')) 0),
      (0, Write (call_payload 42 (WriteStdin_call ''a'')) 1), (0, Unlock),
      (1, Lock), (1, Write (call_payload 42 Kill_call) 0),
      (1, Write (call_payload 42 Kill_call) 1), (1, Unlock)]
   \<and> (\<exists>secs. wire_of
     [(0, Lock), (0, Write (call_payload 42 (WriteStdin_call ''a'')) 0),
      (0, Write (call_payload 42 (WriteStdin_call ''a'')) 1), (0, Unlock),
      (1, Lock), (1, Write (call_payload 42 Kill_call) 0),
      (1, Write (call_payload 42 Kill_call) 1), (1, Unlock)] = whole_runs secs)"
proof -
  have "runs None
     (\<lambda>g. goroutine_events (map (\<lambda>(c, n). (call_payload 42 c, n))
        (((\<lambda>g. [])(0 := [(WriteStdin_call ''a'', 2)], 1 := [(Kill_call, 2)])) g)))
     [(0, Lock), (0, Write (call_payload 42 (WriteStdin_call ''a'')) 0),
      (0, Write (call_payload 42 (WriteStdin_call ''a'')) 1), (0, Unlock),
      (1, Lock), (1, Write (call_payload 42 Kill_call) 0),
      (1, Write (call_payload 42 Kill_call) 1), (1, Unlock)]"
    by (simp add: mutex_step_def numeral_2_eq_2 del: call_payload.simps)
  then show ?thesis
    by (rule sendPayload_records_not_interleaved)
qed

text \<open>
  On such a wire a write that is not the first of its record comes right after the
  write before it of the same record.
\<close>

lemma whole_runs_piece_follows:
  "whole_runs secs = xs @ (m, Suc i) # ys \<Longrightarrow> \<exists>xs'. xs = xs' @ [(m, i)]"
proof (induction secs arbitrary: xs)
  case Nil
  then show ?case by simp
next
  case (Cons s secs)
  obtain m' n where s: "s = (m', n)" by (cases s)
  from Cons.prems s have eq: "map (Pair m') [0..<n] @ whole_runs secs = xs @ (m, Suc i) # ys"
    by simp
  then consider us where "map (Pair m') [0..<n] = xs @ us" "us @ whole_runs secs = (m, Suc i) # ys"
    | us where "map (Pair m') [0..<n] @ us = xs" "whole_runs secs = us @ (m, Suc i) # ys"
    by (auto simp: append_eq_append_conv2)
  then show ?case
  proof cases
    case 1
    show ?thesis
    proof (cases us)
      case Nil
      with 1 have "whole_runs secs = [] @ (m, Suc i) # ys" by simp
      from Cons.IH[OF this] show ?thesis by simp
    next
      case (Cons u us')
      with 1 have u: "u = (m, Suc i)" and blk: "map (Pair m') [0..<n] = xs @ (m, Suc i) # us'"
        by simp_all
      from blk have len: "length xs < n"
        by (metis length_map length_upt diff_zero length_append length_Cons less_add_Suc1 add_Suc_right)
      from blk have "map (Pair m') [0..<n] ! length xs = (m, Suc i)" by simp
      with len have mi: "m' = m" "length xs = Suc i" by simp_all
      from blk have "xs = take (length xs) (map (Pair m') [0..<n])" by simp
      also have "\<dots> = map (Pair m) [0..<Suc i]"
        using len mi by (simp add: take_map)
      finally show ?thesis by simp
    qed
  next
    case 2
    from Cons.IH[OF 2(2)] obtain xs' where "us = xs' @ [(m, i)]" by blast
    with 2(1) show ?thesis by (intro exI[of _ "map (Pair m') [0..<n] @ xs'"]) simp
  qed
qed

text \<open>
  Without \<open>Lock\<close> and \<open>Unlock\<close> around them the same writes can come in an order
  that is not of that kind: it is the mutex that keeps the records apart.
\<close>

lemma unguarded_writes_interleave:
  "runs None
     ((\<lambda>g. [])(0 := map (Write (call_payload 42 (WriteStdin_call ''a''))) [0..<2],
               1 := map (Write (call_payload 42 Kill_call)) [0..<2]))
     [(0, Write (call_payload 42 (WriteStdin_call ''a'')) 0),
      (1, Write (call_payload 42 Kill_call) 0),
      (0, Write (call_payload 42 (WriteStdin_call ''a'')) 1),
      (1, Write (call_payload 42 Kill_call) 1)]
   \<and> \<not> (\<exists>secs. wire_of
     [(0, Write (call_payload 42 (WriteStdin_call ''a'')) 0),
      (1, Write (call_payload 42 Kill_call) 0),
      (0, Write (call_payload 42 (WriteStdin_call ''a'')) 1),
      (1, Write (call_payload 42 Kill_call) 1)] = whole_runs secs)"
proof
  show "runs None
     ((\<lambda>g. [])(0 := map (Write (call_payload 42 (WriteStdin_call ''a''))) [0..<2],
               1 := map (Write (call_payload 42 Kill_call)) [0..<2]))
     [(0, Write (call_payload 42 (WriteStdin_call ''a'')) 0),
      (1, Write (call_payload 42 Kill_call) 0),
      (0, Write (call_payload 42 (WriteStdin_call ''a'')) 1),
      (1, Write (call_payload 42 Kill_call) 1)]"
    by (simp add: mutex_step_def numeral_2_eq_2 del: call_payload.simps)
  show "\<not> (\<exists>secs. wire_of
     [(0, Write (call_payload 42 (WriteStdin_call ''a'')) 0),
      (1, Write (call_payload 42 Kill_call) 0),
      (0, Write (call_payload 42 (WriteStdin_call ''a'')) 1),
      (1, Write (call_payload 42 Kill_call) 1)] = whole_runs secs)"
  proof
    assume "\<exists>secs. wire_of
     [(0, Write (call_payload 42 (WriteStdin_call ''a'')) 0),
      (1, Write (call_payload 42 Kill_call) 0),
      (0, Write (call_payload 42 (WriteStdin_call ''a'')) 1),
      (1, Write (call_payload 42 Kill_call) 1)] = whole_runs secs"
    then obtain secs where "whole_runs secs =
       [(call_payload 42 (WriteStdin_call ''a''), 0), (call_payload 42 Kill_call, 0)]
       @ (call_payload 42 (WriteStdin_call ''a''), Suc 0)
       # [(call_payload 42 Kill_call, 1)]"
      by (auto simp del: call_payload.simps)
    from whole_runs_piece_follows[OF this] obtain xs' where
      "[(call_payload 42 (WriteStdin_call ''a''), 0::nat), (call_payload 42 Kill_call, 0)] =
         xs' @ [(call_payload 42 (WriteStdin_call ''a''), 0)]" by blast
    then have "call_payload 42 Kill_call = call_payload 42 (WriteStdin_call ''a'')"
      by (metis last_snoc last.simps list.distinct(1) prod.inject)
    then show False by (simp add: ProcessPayload_empty_def)
  qed
qed

subsection \<open>Environment variables\<close>

lemma convertEnvironmentVariable_cut:
  "CHR ''='' \<in> set e \<Longrightarrow>
   convertEnvironmentVariable e =
     Inr \<lparr>Key = Some (takeWhile (\<lambda>c. c \<noteq> CHR ''='') e),
          Value = Some (tl (dropWhile (\<lambda>c. c \<noteq> CHR ''='') e))\<rparr>"
  by (simp add: convertEnvironmentVariable_def SplitN_eq_2_def index_def)

lemma convertEnvironmentVariable_panic:
  "CHR ''='' \<notin> set e \<Longrightarrow> convertEnvironmentVariable e = Inl index_out_of_range"
  by (simp add: convertEnvironmentVariable_def SplitN_eq_2_def index_def)

lemma cut_parts:
  assumes "CHR ''='' \<in> set e"
  shows "takeWhile (\<lambda>c. c \<noteq> CHR ''='') e @ ''='' @ tl (dropWhile (\<lambda>c. c \<noteq> CHR ''='') e) = e"
proof -
  have "dropWhile (\<lambda>c. c \<noteq> CHR ''='') e \<noteq> []"
    using assms by (auto simp: dropWhile_eq_Nil_conv)
  moreover from this have "hd (dropWhile (\<lambda>c. c \<noteq> CHR ''='') e) = CHR ''=''"
    using hd_dropWhile[of "\<lambda>c. c \<noteq> CHR ''=''" e] by auto
  ultimately have "dropWhile (\<lambda>c. c \<noteq> CHR ''='') e
      = CHR ''='' # tl (dropWhile (\<lambda>c. c \<noteq> CHR ''='') e)"
    by (metis list.collapse)
  then show ?thesis
    by (metis append_Cons append_Nil takeWhile_dropWhile_id)
qed

lemma cut_no_eq: "CHR ''='' \<notin> set (takeWhile (\<lambda>c. c \<noteq> CHR ''='') e)"
  by (auto dest: set_takeWhileD)

lemma loop_ok:
  "\<forall>e \<in> set envs. CHR ''='' \<in> set e \<Longrightarrow>
   convertEnvironmentVariables_loop envs acc =
     Inr (acc @ map (\<lambda>e. \<lparr>Key = Some (takeWhile (\<lambda>c. c \<noteq> CHR ''='') e),
          Value = Some (tl (dropWhile (\<lambda>c. c \<noteq> CHR ''='') e))\<rparr>) envs)"
  by (induction envs arbitrary: acc)
     (simp_all add: convertEnvironmentVariable_cut)

lemma loop_panic:
  "\<exists>e \<in> set envs. CHR ''='' \<notin> set e \<Longrightarrow>
   convertEnvironmentVariables_loop envs acc = Inl index_out_of_range"
proof (induction envs arbitrary: acc)
  case Nil
  then show ?case by simp
next
  case (Cons e envs)
  show ?case
  proof (cases "CHR ''='' \<in> set e")
    case True
    with Cons.prems have "\<exists>e \<in> set envs. CHR ''='' \<notin> set e" by auto
    then show ?thesis
      using True by (simp add: convertEnvironmentVariable_cut Cons.IH)
  next
    case False
    then show ?thesis by (simp add: convertEnvironmentVariable_panic)
  qed
qed

text \<open>
  C9.  When every entry holds an \<open>=\<close>, \<open>convertEnvironmentVariables\<close> returns one pair
  per entry, in order: the key is the part before the first \<open>=\<close>, the value is all that
  follows it.  When some entry holds no \<open>=\<close>, it panics with an index out of range.
  \<open>Run\<close> passes \<open>spec.Env\<close> through it, and \<open>Create\<close> does when \<open>spec.Env\<close> is not
  nil: the request holds its result, and its panic is theirs.
\<close>

theorem convertEnvironmentVariables_first_eq:
  "((\<forall>e \<in> set envs. CHR ''='' \<in> set e) \<longrightarrow>
      (\<exists>kvs. convertEnvironmentVariables envs = Inr kvs \<and> length kvs = length envs
         \<and> (\<forall>i < length envs. \<exists>k v. kvs ! i = \<lparr>Key = Some k, Value = Some v\<rparr>
               \<and> envs ! i = k @ ''='' @ v \<and> CHR ''='' \<notin> set k)))
   \<and> ((\<exists>e \<in> set envs. CHR ''='' \<notin> set e) \<longrightarrow>
        convertEnvironmentVariables envs = Inl index_out_of_range)
   \<and> (case convertEnvironmentVariables (Env pspec) of
         Inl p \<Rightarrow> Run_request handle pspec = Inl p
       | Inr kvs \<Rightarrow> map_sum id Run_Env (Run_request handle pspec) = Inr kvs)
   \<and> (\<forall>env. ContainerEnv cspec = Some env \<longrightarrow>
         (case convertEnvironmentVariables env of
            Inl p \<Rightarrow> Create_request impl cspec = Inl p
          | Inr kvs \<Rightarrow> map_sum id Create_Env (Create_request impl cspec) = Inr (Some kvs)))"
proof (intro conjI impI allI)
  assume a: "\<forall>e \<in> set envs. CHR ''='' \<in> set e"
  let ?cut = "\<lambda>e. \<lparr>Key = Some (takeWhile (\<lambda>c. c \<noteq> CHR ''='') e),
          Value = Some (tl (dropWhile (\<lambda>c. c \<noteq> CHR ''='') e))\<rparr>"
  have r: "convertEnvironmentVariables envs = Inr (map ?cut envs)"
    using a by (simp add: convertEnvironmentVariables_def loop_ok)
  have "\<exists>k v. map ?cut envs ! i = \<lparr>Key = Some k, Value = Some v\<rparr>
               \<and> envs ! i = k @ ''='' @ v \<and> CHR ''='' \<notin> set k" if "i < length envs" for i
  proof -
    from that a have "CHR ''='' \<in> set (envs ! i)" by simp
    then have "envs ! i = takeWhile (\<lambda>c. c \<noteq> CHR ''='') (envs ! i) @ ''='' @
        tl (dropWhile (\<lambda>c. c \<noteq> CHR ''='') (envs ! i))"
      by (simp only: cut_parts)
    with that show ?thesis
      using cut_no_eq[of "envs ! i"] by (metis (lifting) nth_map)
  qed
  with r show "\<exists>kvs. convertEnvironmentVariables envs = Inr kvs \<and> length kvs = length envs
         \<and> (\<forall>i < length envs. \<exists>k v. kvs ! i = \<lparr>Key = Some k, Value = Some v\<rparr>
               \<and> envs ! i = k @ ''='' @ v \<and> CHR ''='' \<notin> set k)"
    by (intro exI[of _ "map ?cut envs"]) simp
next
  assume "\<exists>e \<in> set envs. CHR ''='' \<notin> set e"
  then show "convertEnvironmentVariables envs = Inl index_out_of_range"
    by (simp add: convertEnvironmentVariables_def loop_panic)
next
  show "case convertEnvironmentVariables (Env pspec) of
         Inl p \<Rightarrow> Run_request handle pspec = Inl p
       | Inr kvs \<Rightarrow> map_sum id Run_Env (Run_request handle pspec) = Inr kvs"
    by (simp add: Run_request_def split: sum.splits)
next
  fix env assume "ContainerEnv cspec = Some env"
  then show "case convertEnvironmentVariables env of
            Inl p \<Rightarrow> Create_request impl cspec = Inl p
          | Inr kvs \<Rightarrow> map_sum id Create_Env (Create_request impl cspec) = Inr (Some kvs)"
    by (simp add: Create_request_def split: sum.splits)
qed

theorem convertEnvironmentVariables_first_eq_witness:
  "(\<exists>kvs. convertEnvironmentVariables [''FLAVOR=chocolate'', ''PATH=/bin=x''] = Inr kvs
         \<and> length kvs = 2)
   \<and> convertEnvironmentVariables [''FLAVOR=chocolate'', ''TOPPINGS''] = Inl index_out_of_range"
  using convertEnvironmentVariables_first_eq [of "[''FLAVOR=chocolate'', ''PATH=/bin=x'']"]
    convertEnvironmentVariables_first_eq [of "[''FLAVOR=chocolate'', ''TOPPINGS'']"]
  by auto

subsection \<open>The Run request\<close>

lemma server_Env_cut:
  "\<forall>e \<in> set envs. CHR ''='' \<in> set e \<Longrightarrow>
   map (server_Env \<circ> (\<lambda>e. \<lparr>Key = Some (takeWhile (\<lambda>c. c \<noteq> CHR ''='') e),
          Value = Some (tl (dropWhile (\<lambda>c. c \<noteq> CHR ''='') e))\<rparr>)) envs = envs"
  by (rule map_idI) (simp add: server_Env_def cut_parts del: append.simps)

lemma server_convert_WindowSize:
  "0 \<le> Columns ws \<Longrightarrow> Columns ws < 2 ^ 32 \<Longrightarrow> 0 \<le> Rows ws \<Longrightarrow> Rows ws < 2 ^ 32 \<Longrightarrow>
   server_WindowSize (convertWindowSize ws) = ws"
  by (simp add: server_WindowSize_def convertWindowSize_def uint_word_of_int)

lemma server_convert_TTY:
  assumes "\<forall>ws. WindowSize t = Some ws \<longrightarrow>
          0 \<le> Columns ws \<and> Columns ws < 2 ^ 32 \<and> 0 \<le> Rows ws \<and> Rows ws < 2 ^ 32"
  shows "server_TTY (convertTTY t) = t"
  using assms
  by (cases "WindowSize t") (simp_all add: server_TTY_def convertTTY_def server_convert_WindowSize)

lemma server_Limits:
  "server_ResourceLimits (Some
     \<lparr>Rlimits_As = Limits_As l, Rlimits_Core = Limits_Core l, Rlimits_Cpu = Limits_Cpu l,
      Rlimits_Data = Limits_Data l, Rlimits_Fsize = Limits_Fsize l,
      Rlimits_Locks = Limits_Locks l, Rlimits_Memlock = Limits_Memlock l,
      Rlimits_Msgqueue = Limits_Msgqueue l, Rlimits_Nice = Limits_Nice l,
      Rlimits_Nofile = Limits_Nofile l, Rlimits_Nproc = Limits_Nproc l,
      Rlimits_Rss = Limits_Rss l, Rlimits_Rtprio = Limits_Rtprio l,
      Rlimits_Sigpending = Limits_Sigpending l, Rlimits_Stack = Limits_Stack l\<rparr>) = l"
  by (simp add: server_ResourceLimits_def)

text \<open>
  C6, as the code has it.  The backend receives the spec the client sent when every
  entry of the environment holds an \<open>=\<close> and the window size, if there is one, has
  columns and rows that fit a \<open>uint32\<close>.
\<close>

theorem Run_roundtrip_identity:
  assumes "\<forall>e \<in> set (Env spec). CHR ''='' \<in> set e"
    and "\<forall>t ws. TTY spec = Some t \<and> WindowSize t = Some ws \<longrightarrow>
          0 \<le> Columns ws \<and> Columns ws < 2 ^ 32 \<and> 0 \<le> Rows ws \<and> Rows ws < 2 ^ 32"
  shows "Run_roundtrip handle spec = Inr spec"
proof -
  have tty: "map_option server_TTY (map_option convertTTY (TTY spec)) = TTY spec"
    using assms(2) by (cases "TTY spec") (simp_all add: server_convert_TTY)
  show ?thesis
    using assms(1) tty
    by (cases spec) (simp add: Run_roundtrip_def Run_request_def convertEnvironmentVariables_def
        loop_ok server_ProcessSpec_def server_Env_cut server_Limits)
qed

theorem Run_roundtrip_identity_witness:
  "Run_roundtrip ''some-handle''
     \<lparr>Path = ''/some/script'', Args = [''arg1'', ''arg2''],
      Env = [''FLAVOR=chocolate'', ''TOPPINGS=sprinkles''], Dir = ''/some/dir'',
      Privileged = True, User = [],
      Limits = \<lparr>Limits_As = Some 1, Limits_Core = Some 2, Limits_Cpu = Some 3,
        Limits_Data = Some 4, Limits_Fsize = Some 5, Limits_Locks = Some 6,
        Limits_Memlock = Some 7, Limits_Msgqueue = Some 8, Limits_Nice = Some 9,
        Limits_Nofile = Some 10, Limits_Nproc = Some 11, Limits_Rss = Some 12,
        Limits_Rtprio = Some 13, Limits_Sigpending = Some 14, Limits_Stack = Some 15\<rparr>,
      TTY = Some \<lparr>WindowSize = Some \<lparr>Columns = 80, Rows = 24\<rparr>\<rparr>\<rparr>
   = Inr
     \<lparr>Path = ''/some/script'', Args = [''arg1'', ''arg2''],
      Env = [''FLAVOR=chocolate'', ''TOPPINGS=sprinkles''], Dir = ''/some/dir'',
      Privileged = True, User = [],
      Limits = \<lparr>Limits_As = Some 1, Limits_Core = Some 2, Limits_Cpu = Some 3,
        Limits_Data = Some 4, Limits_Fsize = Some 5, Limits_Locks = Some 6,
        Limits_Memlock = Some 7, Limits_Msgqueue = Some 8, Limits_Nice = Some 9,
        Limits_Nofile = Some 10, Limits_Nproc = Some 11, Limits_Rss = Some 12,
        Limits_Rtprio = Some 13, Limits_Sigpending = Some 14, Limits_Stack = Some 15\<rparr>,
      TTY = Some \<lparr>WindowSize = Some \<lparr>Columns = 80, Rows = 24\<rparr>\<rparr>\<rparr>"
  using Run_roundtrip_identity [of
     "\<lparr>Path = ''/some/script'', Args = [''arg1'', ''arg2''],
      Env = [''FLAVOR=chocolate'', ''TOPPINGS=sprinkles''], Dir = ''/some/dir'',
      Privileged = True, User = [],
      Limits = \<lparr>Limits_As = Some 1, Limits_Core = Some 2, Limits_Cpu = Some 3,
        Limits_Data = Some 4, Limits_Fsize = Some 5, Limits_Locks = Some 6,
        Limits_Memlock = Some 7, Limits_Msgqueue = Some 8, Limits_Nice = Some 9,
        Limits_Nofile = Some 10, Limits_Nproc = Some 11, Limits_Rss = Some 12,
        Limits_Rtprio = Some 13, Limits_Sigpending = Some 14, Limits_Stack = Some 15\<rparr>,
      TTY = Some \<lparr>WindowSize = Some \<lparr>Columns = 80, Rows = 24\<rparr>\<rparr>\<rparr>" "''some-handle''"]
  by simp

text \<open>
  Two specs that do not arrive as sent: with the entry \<open>FOO\<close> in the environment the
  client panics before anything is sent, and a window of \<open>-1\<close> columns arrives as one of
  4294967295 columns.
\<close>

theorem Run_roundtrip_not_identity:
  "Run_roundtrip ''some-handle''
     \<lparr>Path = ''/bin/sh'', Args = [], Env = [''FOO''], Dir = [], Privileged = False, User = [],
      Limits = \<lparr>Limits_As = None, Limits_Core = None, Limits_Cpu = None, Limits_Data = None,
        Limits_Fsize = None, Limits_Locks = None, Limits_Memlock = None, Limits_Msgqueue = None,
        Limits_Nice = None, Limits_Nofile = None, Limits_Nproc = None, Limits_Rss = None,
        Limits_Rtprio = None, Limits_Sigpending = None, Limits_Stack = None\<rparr>,
      TTY = None\<rparr> = Inl index_out_of_range
   \<and> map_sum id TTY (Run_roundtrip ''some-handle''
     \<lparr>Path = ''/bin/sh'', Args = [], Env = [], Dir = [], Privileged = False, User = [],
      Limits = \<lparr>Limits_As = None, Limits_Core = None, Limits_Cpu = None, Limits_Data = None,
        Limits_Fsize = None, Limits_Locks = None, Limits_Memlock = None, Limits_Msgqueue = None,
        Limits_Nice = None, Limits_Nofile = None, Limits_Nproc = None, Limits_Rss = None,
        Limits_Rtprio = None, Limits_Sigpending = None, Limits_Stack = None\<rparr>,
      TTY = Some \<lparr>WindowSize = Some \<lparr>Columns = - 1, Rows = 24\<rparr>\<rparr>\<rparr>)
     = Inr (Some \<lparr>WindowSize = Some \<lparr>Columns = 4294967295, Rows = 24\<rparr>\<rparr>)"
  by (simp add: Run_roundtrip_def Run_request_def convertEnvironmentVariables_def
      convertEnvironmentVariable_def SplitN_eq_2_def index_def server_ProcessSpec_def
      server_TTY_def convertTTY_def server_WindowSize_def convertWindowSize_def
      unsigned_minus_1_eq_mask mask_eq_exp_minus_1)

subsection \<open>Responses outside 200..299\<close>

text \<open>
  C7, as the code has it.  On a status outside 200..299, \<open>doHijack\<close> (the path of
  \<open>Run\<close> and \<open>Attach\<close>) returns an error whose message is \<open>bad response: \<close> followed by
  the status line.  \<open>doStream\<close>, and \<open>do\<close> through it, return an error whose message is
  what \<open>fmt\<close> prints for the body taken as a format; that is the body itself when it
  holds no \<open>%\<close>, \<open>fmt\<close> copying such a format.  When the body cannot be read they too
  return \<open>bad response: \<close> and the status line.
\<close>

theorem non_2xx_error_message:
  assumes "StatusCode httpResp < 200 \<or> StatusCode httpResp > 299"
  shows "doHijack None (Inr c) (Inr httpResp) =
           Inl (errorString (''bad response: '' @ Status httpResp))
       \<and> (\<forall>body. Body httpResp = (body, None) \<longrightarrow>
             doStream Sprintf None (Inr httpResp) = Inl (errorString (Sprintf body))
           \<and> do Sprintf None None (Inr httpResp) decode
               = Some (errorString (Sprintf body)))
       \<and> (\<forall>body. Body httpResp = (body, None) \<and> CHR ''%'' \<notin> set body
               \<and> (\<forall>f. CHR ''%'' \<notin> set f \<longrightarrow> Sprintf f = f) \<longrightarrow>
             doStream Sprintf None (Inr httpResp) = Inl (errorString body)
           \<and> do Sprintf None None (Inr httpResp) decode = Some (errorString body))
       \<and> (\<forall>body err. Body httpResp = (body, Some err) \<longrightarrow>
             doStream Sprintf None (Inr httpResp) =
               Inl (errorString (''bad response: '' @ Status httpResp))
           \<and> do Sprintf None None (Inr httpResp) decode
               = Some (errorString (''bad response: '' @ Status httpResp)))"
  using assms by (auto simp: doHijack_def doStream_def do_def)

theorem non_2xx_error_message_witness:
  "doStream (\<lambda>f. f) None
     (Inr \<lparr>StatusCode = 500, Status = ''500 Internal Server Error'',
           Body = (''oh no!'', None)\<rparr>) = Inl (errorString ''oh no!'')
   \<and> doHijack None (Inr \<lparr>closed = False, wire = []\<rparr>)
     (Inr \<lparr>StatusCode = 404, Status = ''404 Not Found'', Body = (''unknown handle: h'', None)\<rparr>)
     = Inl (errorString ''bad response: 404 Not Found'')"
  using non_2xx_error_message
    [of "\<lparr>StatusCode = 500, Status = ''500 Internal Server Error'',
          Body = (''oh no!'', None)\<rparr>" "\<lparr>closed = False, wire = []\<rparr>" "\<lambda>f. f"]
    non_2xx_error_message
    [of "\<lparr>StatusCode = 404, Status = ''404 Not Found'', Body = (''unknown handle: h'', None)\<rparr>"
        "\<lparr>closed = False, wire = []\<rparr>"]
  by simp

text \<open>
  A hijacked request answered with status 500 and the body \<open>oh no!\<close>: the error's
  message is the status line after \<open>bad response: \<close>, not the body.
\<close>

theorem doHijack_drops_body:
  "doHijack None (Inr \<lparr>closed = False, wire = []\<rparr>)
     (Inr \<lparr>StatusCode = 500, Status = ''500 Internal Server Error'',
           Body = (''oh no!'', None)\<rparr>)
   = Inl (errorString ''bad response: 500 Internal Server Error'')
   \<and> errorString ''bad response: 500 Internal Server Error'' \<noteq> errorString ''oh no!''"
  by (simp add: doHijack_def)

subsection \<open>The grace time\<close>

text \<open>Rounding to the nearest integer: off by a half at most, and exact on integers.\<close>

lemma round_even_cases:
  fixes q :: real
  obtains f where "f = \<lfloor>q\<rfloor>" "of_int f \<le> q" "q < of_int f + 1"
proof -
  have "of_int \<lfloor>q\<rfloor> \<le> q" "q < of_int \<lfloor>q\<rfloor> + 1" by linarith+
  then show thesis using that by blast
qed

lemma round_even_le: "of_int (round_even q) \<le> q + 1 / 2"
proof -
  obtain f where f: "f = \<lfloor>q\<rfloor>" "of_int f \<le> q" "q < of_int f + 1"
    by (rule round_even_cases)
  show ?thesis
    unfolding round_even_def Let_def f(1)[symmetric] using f(2,3) by auto
qed

lemma round_even_ge: "q - 1 / 2 \<le> of_int (round_even q)"
proof -
  obtain f where f: "f = \<lfloor>q\<rfloor>" "of_int f \<le> q" "q < of_int f + 1"
    by (rule round_even_cases)
  show ?thesis
    unfolding round_even_def Let_def f(1)[symmetric] using f(2,3) by auto
qed

lemma floor_le_round_even: "\<lfloor>q\<rfloor> \<le> round_even q"
  by (auto simp: round_even_def Let_def)

lemma round_even_of_int [simp]: "round_even (of_int n) = n"
  by (simp add: round_even_def)

lemma powi_neg_nat: "(2::real) powi (- int n) = 1 / 2 ^ n"
  by (simp only: power_int_minus power_int_of_nat inverse_eq_divide)

lemma powi_ulp: "e \<le> 52 \<Longrightarrow> (2::real) powi (e - 52) = 1 / 2 ^ nat (52 - e)"
proof -
  assume "e \<le> 52"
  then have "e - 52 = - int (nat (52 - e))" by simp
  then show ?thesis by (simp only: powi_neg_nat)
qed

lemma ilog2_lower:
  assumes "0 < x"
  shows "2 powi (ilog2 x) \<le> x"
proof (cases "1 \<le> x")
  case True
  then have pos: "0 < \<lfloor>x\<rfloor>" by simp
  then have b1: "1 \<le> bitlen \<lfloor>x\<rfloor>" using bitlen_eq_zero_iff[of "\<lfloor>x\<rfloor>"] bitlen_nonneg[of "\<lfloor>x\<rfloor>"] by linarith
  from bitlen_bounds[OF pos] have "2 ^ nat (bitlen \<lfloor>x\<rfloor> - 1) \<le> \<lfloor>x\<rfloor>" by simp
  then have "(2::real) ^ nat (bitlen \<lfloor>x\<rfloor> - 1) \<le> of_int \<lfloor>x\<rfloor>"
    by (metis of_int_le_iff of_int_numeral of_int_power)
  also have "\<dots> \<le> x" by simp
  finally show ?thesis using True b1 by (simp add: ilog2_def power_int_def)
next
  case False
  define t where "t = \<lfloor>1 / x\<rfloor>"
  define b where "b = bitlen t - 1"
  from False assms have "1 \<le> 1 / x" by simp
  then have pos: "0 < t" by (simp add: t_def)
  then have b0: "0 \<le> b" using bitlen_eq_zero_iff[of t] bitlen_nonneg[of t] by (simp add: b_def) 
  from bitlen_bounds[OF pos] have "t < 2 ^ nat (bitlen t)" by simp
  then have "t + 1 \<le> 2 ^ nat (b + 1)" by (simp add: b_def)
  then have "of_int (t + 1) \<le> (2::real) ^ nat (b + 1)"
    by (metis of_int_le_iff of_int_numeral of_int_power)
  moreover have "1 / x < of_int (t + 1)" unfolding t_def by linarith
  ultimately have up: "1 / x < 2 ^ nat (b + 1)" by linarith
  have "1 / 2 ^ nat (b + 1) < x"
    using up assms by (simp add: field_simps)
  moreover have "- b - 1 = - int (nat (b + 1))" using b0 by simp
  ultimately have low: "2 powi (- b - 1) \<le> x"
    by (simp only: powi_neg_nat)
  show ?thesis
  proof (cases "x * 2 powi b = 1")
    case True
    then have il: "ilog2 x = - b"
      using False by (simp add: ilog2_def Let_def t_def b_def)
    from True have "2 powi (- b) = x"
      by (simp add: power_int_minus field_simps)
    then have "2 powi (- b) \<le> x" by simp
    then show ?thesis by (simp only: il)
  next
    case F2: False
    then have il: "ilog2 x = - b - 1"
      using False by (simp add: ilog2_def Let_def t_def b_def)
    show ?thesis using low by (simp only: il)
  qed
qed

lemma ilog2_upper:
  assumes "0 < x"
  shows "x < 2 powi (ilog2 x + 1)"
proof (cases "1 \<le> x")
  case True
  then have pos: "0 < \<lfloor>x\<rfloor>" by simp
  then have b1: "1 \<le> bitlen \<lfloor>x\<rfloor>"
    using bitlen_eq_zero_iff[of "\<lfloor>x\<rfloor>"] bitlen_nonneg[of "\<lfloor>x\<rfloor>"] by linarith
  from bitlen_bounds[OF pos] have "\<lfloor>x\<rfloor> + 1 \<le> 2 ^ nat (bitlen \<lfloor>x\<rfloor>)" by simp
  then have "of_int (\<lfloor>x\<rfloor> + 1) \<le> (2::real) ^ nat (bitlen \<lfloor>x\<rfloor>)"
    by (metis of_int_le_iff of_int_numeral of_int_power)
  moreover have "x < of_int (\<lfloor>x\<rfloor> + 1)" by linarith
  ultimately have "x < 2 ^ nat (bitlen \<lfloor>x\<rfloor>)" by linarith
  then show ?thesis using True b1 by (simp add: ilog2_def power_int_def)
next
  case False
  define t where "t = \<lfloor>1 / x\<rfloor>"
  define b where "b = bitlen t - 1"
  from False assms have "1 \<le> 1 / x" by simp
  then have pos: "0 < t" by (simp add: t_def)
  then have b0: "0 \<le> b" using bitlen_eq_zero_iff[of t] bitlen_nonneg[of t] by (simp add: b_def)
  from bitlen_bounds[OF pos] have "2 ^ nat b \<le> t" by (simp add: b_def)
  then have "(2::real) ^ nat b \<le> of_int t"
    by (metis of_int_le_iff of_int_numeral of_int_power)
  also have "\<dots> \<le> 1 / x" by (simp add: t_def)
  finally have lo: "(2::real) ^ nat b \<le> 1 / x" .
  have pb: "(2::real) powi b = 2 ^ nat b" using b0 by (simp add: power_int_def)
  show ?thesis
  proof (cases "x * 2 powi b = 1")
    case True
    then have il: "ilog2 x = - b"
      using False by (simp add: ilog2_def Let_def t_def b_def)
    from True have "2 powi (- b) = x"
      by (simp add: power_int_minus field_simps)
    moreover have "(2::real) powi (- b) < 2 powi (- b + 1)"
      by (rule power_int_strict_increasing) simp_all
    ultimately show ?thesis by (simp only: il)
  next
    case F2: False
    then have il: "ilog2 x = - b - 1"
      using False by (simp add: ilog2_def Let_def t_def b_def)
    from F2 pb have "2 ^ nat b \<noteq> 1 / x" using assms by (auto simp: field_simps)
    with lo have "2 ^ nat b < 1 / x" by linarith
    then have "x < 1 / 2 ^ nat b" using assms by (simp add: field_simps)
    moreover have "- b - 1 + 1 = - int (nat b)" using b0 by simp
    ultimately show ?thesis by (simp only: il powi_neg_nat)
  qed
qed

lemma ilog2_less:
  assumes "0 < x" and "x < 2 powi n"
  shows "ilog2 x < n"
proof (rule ccontr)
  assume "\<not> ilog2 x < n"
  then have "n \<le> ilog2 x" by simp
  then have "(2::real) powi n \<le> 2 powi (ilog2 x)"
    by (rule power_int_increasing) simp
  with ilog2_lower[OF assms(1)] assms(2) show False by linarith
qed


lemma float64_pos:
  assumes "0 < x" and "ilog2 x \<le> 52"
  shows "float64 x = of_int (round_even (x * 2 ^ nat (52 - ilog2 x))) / 2 ^ nat (52 - ilog2 x)"
  using assms by (simp add: float64_def Let_def powi_ulp)

lemma float64_of_int_pos:
  assumes "0 < n" and "n < 2 ^ 53"
  shows "float64 (of_int n) = of_int n"
proof -
  have pos: "0 < (of_int n :: real)" using assms(1) by simp
  have "(of_int n :: real) < 2 powi 53" using assms(2)
    by (metis of_int_less_iff of_int_numeral of_int_power power_int_numeral)
  then have e: "ilog2 (of_int n) \<le> 52" using ilog2_less[OF pos, of 53] by simp
  define m where "m = nat (52 - ilog2 (of_int n))"
  have "(of_int n :: real) * 2 ^ m = of_int (n * 2 ^ m)" by simp
  then have "round_even (of_int n * 2 ^ m) = n * 2 ^ m"
    by (simp only: round_even_of_int)
  then show ?thesis
    by (simp add: float64_pos[OF pos e] m_def[symmetric])
qed

lemma floor_float64_add:
  assumes "0 \<le> n" and "n < 2 ^ 24" and "0 \<le> f" and "f < 1 - 1 / 2 ^ 30"
  shows "\<lfloor>float64 (of_int n + f)\<rfloor> = n"
proof (cases "of_int n + f = 0")
  case True
  with assms(1,3) have "n = 0" by linarith
  with True show ?thesis by (simp add: float64_def)
next
  case False
  define y where "y = of_int n + f"
  have pos: "0 < y" using False assms(1,3) by (simp add: y_def)
  have "of_int n + 1 \<le> (2::real) ^ 24" using assms(2)
    by (metis of_int_le_iff of_int_numeral of_int_power zless_imp_add1_zle of_int_add of_int_1)
  then have "y < 2 powi 24" using assms(4) by (simp add: y_def)
  then have e: "ilog2 y < 24" using ilog2_less[OF pos] by simp
  define m where "m = nat (52 - ilog2 y)"
  have m29: "29 \<le> m" using e by (simp add: m_def)
  define R where "R = round_even (y * 2 ^ m)"
  have fl: "float64 y = of_int R / 2 ^ m"
    using float64_pos[OF pos] e by (simp add: m_def R_def)
  have "(of_int (n * 2 ^ m) :: real) \<le> y * 2 ^ m"
    using assms(3) by (simp add: y_def)
  then have "n * 2 ^ m \<le> \<lfloor>y * 2 ^ m\<rfloor>" by (simp only: le_floor_iff)
  also have "\<dots> \<le> R" unfolding R_def by (rule floor_le_round_even)
  finally have lo: "n * 2 ^ m \<le> R" .
  have p29: "(2::real) ^ 29 \<le> 2 ^ m" using m29 by (intro power_increasing) simp_all
  have "of_int R \<le> y * 2 ^ m + 1 / 2" unfolding R_def by (rule round_even_le)
  also have "\<dots> < (of_int n + 1 - 1 / 2 ^ 30) * 2 ^ m + 1 / 2"
    using assms(4) by (simp add: y_def)
  also have "\<dots> = (of_int n + 1) * 2 ^ m - 2 ^ m / 2 ^ 30 + 1 / 2"
    by (simp add: algebra_simps)
  also have "\<dots> \<le> (of_int n + 1) * 2 ^ m"
    using p29 by simp
  finally have hi: "of_int R < (of_int n + 1) * (2::real) ^ m" .
  have "of_int n \<le> float64 y"
  proof -
    have "(of_int n :: real) * 2 ^ m \<le> of_int R" using lo
      by (metis of_int_le_iff of_int_mult of_int_numeral of_int_power)
    then show ?thesis by (simp add: fl field_simps)
  qed
  moreover have "float64 y < of_int n + 1"
    using hi by (simp add: fl field_simps)
  ultimately show ?thesis unfolding y_def by linarith
qed

lemma float64_fraction:
  assumes "0 \<le> k" and "k < 1000000000"
  shows "0 \<le> float64 (of_int k / 1000000000) \<and> float64 (of_int k / 1000000000) < 1 - 1 / 2 ^ 30"
proof (cases "k = 0")
  case True
  then show ?thesis by (simp add: float64_def)
next
  case False
  define x :: real where "x = of_int k / 1000000000"
  have pos: "0 < x" using False assms(1) by (simp add: x_def)
  have "k \<le> 999999999" using assms(2) by simp
  then have "(of_int k :: real) \<le> 999999999" by (metis of_int_le_iff of_int_numeral)
  then have xle: "x \<le> 999999999 / 1000000000" by (simp add: x_def)
  then have "x < 2 powi 0" by simp
  then have e: "ilog2 x < 0" using ilog2_less[OF pos] by blast
  define m where "m = nat (52 - ilog2 x)"
  have m53: "53 \<le> m" using e by (simp add: m_def)
  define R where "R = round_even (x * 2 ^ m)"
  have fl: "float64 x = of_int R / 2 ^ m"
    using float64_pos[OF pos] e by (simp add: m_def R_def)
  have "0 \<le> \<lfloor>x * 2 ^ m\<rfloor>" using pos by simp
  also have "\<dots> \<le> R" unfolding R_def by (rule floor_le_round_even)
  finally have "0 \<le> R" .
  then have ge: "0 \<le> float64 x" by (simp add: fl)
  have p53: "(2::real) ^ 53 \<le> 2 ^ m" using m53 by (intro power_increasing) simp_all
  have "of_int R \<le> x * 2 ^ m + 1 / 2" unfolding R_def by (rule round_even_le)
  then have "float64 x \<le> x + 1 / 2 / 2 ^ m"
    by (simp add: fl field_simps)
  also have "\<dots> \<le> x + 1 / 2 / 2 ^ 53"
    using p53 by (simp add: field_simps)
  also have "\<dots> < 1 - 1 / 2 ^ 30" using xle by simp
  finally show ?thesis using ge by (simp add: x_def)
qed


lemma round_even_minus: "round_even (- q) = - round_even q"
proof -
  obtain f where f: "f = \<lfloor>q\<rfloor>" "of_int f \<le> q" "q < of_int f + 1"
    by (rule round_even_cases)
  show ?thesis
  proof (cases "q = of_int f")
    case True
    have "round_even (- of_int f) = round_even (of_int (- f))" by simp
    then show ?thesis unfolding True by (simp only: round_even_of_int)
  next
    case False
    have "\<lfloor>- q\<rfloor> = - f - 1"
      using f(2,3) False by (intro floor_unique) simp_all
    then show ?thesis
      unfolding round_even_def Let_def f(1)[symmetric] using f(2,3) False by auto
  qed
qed

lemma float64_minus: "float64 (- x) = - float64 x"
  by (simp add: float64_def Let_def round_even_minus)

lemma float64_of_int: "\<bar>n\<bar> < 2 ^ 53 \<Longrightarrow> float64 (of_int n) = of_int n"
proof -
  assume a: "\<bar>n\<bar> < 2 ^ 53"
  consider "n = 0" | "0 < n" | "n < 0" by linarith
  then show ?thesis
  proof cases
    case 1
    then show ?thesis by (simp add: float64_def)
  next
    case 2
    with a show ?thesis by (simp add: float64_of_int_pos)
  next
    case 3
    with a have "float64 (of_int (- n)) = of_int (- n)" by (intro float64_of_int_pos) simp_all
    then show ?thesis using float64_minus[of "of_int n"] by simp
  qed
qed

lemma float64_billion: "float64 1000000000 = 1000000000"
  using float64_of_int[of 1000000000] by simp

lemma go_quot_nonneg: "0 \<le> d \<Longrightarrow> go_quot d Second = d div Second"
  by (simp add: go_quot_def Second_def)

lemma go_rem_nonneg: "0 \<le> d \<Longrightarrow> go_rem d Second = d mod Second"
  by (simp add: go_rem_def go_quot_nonneg minus_mult_div_eq_mod)

lemma Seconds_nonneg:
  assumes "0 \<le> d" and "d < 2 ^ 24 * Second"
  shows "\<lfloor>Seconds d\<rfloor> = d div Second"
proof -
  have s0: "0 \<le> d div Second" using assms(1) by (simp add: Second_def pos_imp_zdiv_nonneg_iff)
  have s1: "d div Second < 2 ^ 24" using assms(2) unfolding Second_def by linarith
  have n0: "0 \<le> d mod Second" "d mod Second < 1000000000" by (simp_all add: Second_def)
  have a: "float64 (of_int (d div Second)) = of_int (d div Second)"
    using s0 s1 by (intro float64_of_int) simp
  have b: "float64 (of_int (d mod Second)) = of_int (d mod Second)"
    using n0 by (intro float64_of_int) simp
  show ?thesis
    using float64_fraction[OF n0] floor_float64_add[OF s0 s1]
    by (simp add: Seconds_def Let_def go_quot_nonneg[OF assms(1)] go_rem_nonneg[OF assms(1)]
        a b float64_billion)
qed


lemma Seconds_negative_subsecond:
  assumes "- Second < d" and "d < 0"
  shows "- 1 < Seconds d \<and> Seconds d \<le> 0"
proof -
  have q: "go_quot d Second = 0" using assms by (simp add: go_quot_def Second_def)
  then have r: "go_rem d Second = d" by (simp add: go_rem_def)
  have n0: "0 \<le> - d" "- d < 1000000000" using assms by (simp_all add: Second_def)
  define g where "g = float64 (of_int (- d) / 1000000000)"
  have g: "0 \<le> g" "g < 1 - 1 / 2 ^ 30" using float64_fraction[OF n0] by (simp_all add: g_def)
  have b: "float64 (of_int d) = of_int d"
    using n0 by (intro float64_of_int) simp
  have "(of_int d :: real) / 1000000000 = - (of_int (- d) / 1000000000)" by simp
  then have "float64 (of_int d / 1000000000) = - g"
    unfolding g_def by (simp only: float64_minus)
  then have s: "Seconds d = - float64 g"
    by (simp add: Seconds_def Let_def q r b float64_billion float64_minus float64_def[of 0])
  have "\<lfloor>float64 (of_int 0 + g)\<rfloor> = 0"
    using g by (intro floor_float64_add) simp_all
  then have "0 \<le> float64 g \<and> float64 g < 1" by (simp add: floor_eq_iff)
  with s show ?thesis by simp
qed

lemma truncate_Seconds_subsecond:
  assumes "d \<noteq> 0" and "- Second < d" and "d < Second"
  shows "truncate_float64 (Seconds d) = 0"
proof (cases "0 \<le> d")
  case True
  have "d < 2 ^ 24 * Second" using assms(3) by (simp add: Second_def)
  from Seconds_nonneg[OF True this] have f: "\<lfloor>Seconds d\<rfloor> = 0"
    using True assms(3) by (simp add: Second_def)
  then have "0 \<le> Seconds d" by (simp add: floor_eq_iff)
  with f show ?thesis by (simp add: truncate_float64_def)
next
  case False
  then have "d < 0" by simp
  from Seconds_negative_subsecond[OF assms(2) this]
  have s: "- 1 < Seconds d" "Seconds d \<le> 0" by simp_all
  show ?thesis
  proof (cases "Seconds d = 0")
    case True
    then show ?thesis by (simp add: truncate_float64_def)
  next
    case F: False
    with s have "Seconds d < 0" by simp
    moreover have "\<lceil>Seconds d\<rceil> = 0" using s by (simp add: ceiling_eq_iff)
    ultimately show ?thesis by (simp add: truncate_float64_def)
  qed
qed

lemma truncate_Seconds_whole:
  assumes "0 \<le> d" and "d < 2 ^ 24 * Second"
  shows "truncate_float64 (Seconds d) = d div Second"
proof -
  have f: "\<lfloor>Seconds d\<rfloor> = d div Second" by (rule Seconds_nonneg[OF assms])
  have "0 \<le> d div Second" using assms(1) by (simp add: Second_def pos_imp_zdiv_nonneg_iff)
  with f have "0 \<le> Seconds d" by (metis floor_less_zero not_less)
  with f show ?thesis by (simp add: truncate_float64_def)
qed

lemma uint32_Seconds_whole:
  assumes "0 \<le> d" and "d < 2 ^ 24 * Second"
  shows "uint32_of_float64 impl (Seconds d) = word_of_int (d div Second)"
proof -
  have "0 \<le> d div Second" using assms(1) by (simp add: Second_def pos_imp_zdiv_nonneg_iff)
  moreover have "d div Second < 2 ^ 24" using assms(2) unfolding Second_def by linarith
  ultimately show ?thesis
    by (simp add: uint32_of_float64_def truncate_Seconds_whole[OF assms])
qed

lemma uint32_Seconds_subsecond:
  assumes "d \<noteq> 0" and "- Second < d" and "d < Second"
  shows "uint32_of_float64 impl (Seconds d) = 0"
  by (simp add: uint32_of_float64_def truncate_Seconds_subsecond[OF assms])

text \<open>
  C10, as the code has it.  When \<open>Create\<close> builds its request, a zero grace time leaves
  the field out and any other grace time sets it to \<open>uint32(spec.GraceTime.Seconds())\<close>.
  That value is 0 for every non-zero grace time between minus one second and one
  second, and it is the whole number of seconds, the fraction dropped, for every
  positive grace time below \<open>2 ^ 24\<close> seconds.
\<close>

theorem Create_GraceTime_seconds:
  "case Create_request impl spec of
     Inl p \<Rightarrow> True
   | Inr req \<Rightarrow>
       (GraceTime spec = 0 \<longrightarrow> Create_GraceTime req = None)
     \<and> (GraceTime spec \<noteq> 0 \<longrightarrow>
          Create_GraceTime req = Some (uint32_of_float64 impl (Seconds (GraceTime spec))))
     \<and> (GraceTime spec \<noteq> 0 \<and> - Second < GraceTime spec \<and> GraceTime spec < Second \<longrightarrow>
          Create_GraceTime req = Some 0)
     \<and> (0 < GraceTime spec \<and> GraceTime spec < 2 ^ 24 * Second \<longrightarrow>
          Create_GraceTime req = Some (word_of_int (GraceTime spec div Second)))"
  by (auto simp: Create_request_def uint32_Seconds_subsecond uint32_Seconds_whole
        split: sum.splits option.splits)

theorem Create_GraceTime_seconds_witness:
  "map_sum id Create_GraceTime (Create_request (\<lambda>f. 0)
     \<lparr>Handle = ''some-handle'', GraceTime = 42000000000, RootFSPath = ''/path/to/rootfs'',
      BindMounts = [], Network = ''some-network'', Properties = [],
      ContainerEnv = Some [''env1=env1Value''], ContainerPrivileged = False\<rparr>)
   = Inr (Some 42)
   \<and> map_sum id Create_GraceTime (Create_request (\<lambda>f. 0)
     \<lparr>Handle = ''some-handle'', GraceTime = 500000000, RootFSPath = ''/path/to/rootfs'',
      BindMounts = [], Network = ''some-network'', Properties = [],
      ContainerEnv = None, ContainerPrivileged = False\<rparr>)
   = Inr (Some 0)
   \<and> map_sum id Create_GraceTime (Create_request (\<lambda>f. 0)
     \<lparr>Handle = ''some-handle'', GraceTime = 0, RootFSPath = ''/path/to/rootfs'',
      BindMounts = [], Network = ''some-network'', Properties = [],
      ContainerEnv = None, ContainerPrivileged = False\<rparr>)
   = Inr None"
  using Create_GraceTime_seconds [where impl = "\<lambda>f. 0" and spec =
     "\<lparr>Handle = ''some-handle'', GraceTime = 42000000000, RootFSPath = ''/path/to/rootfs'',
      BindMounts = [], Network = ''some-network'', Properties = [],
      ContainerEnv = Some [''env1=env1Value''], ContainerPrivileged = False\<rparr>"]
    Create_GraceTime_seconds [where impl = "\<lambda>f. 0" and spec =
     "\<lparr>Handle = ''some-handle'', GraceTime = 500000000, RootFSPath = ''/path/to/rootfs'',
      BindMounts = [], Network = ''some-network'', Properties = [],
      ContainerEnv = None, ContainerPrivileged = False\<rparr>"]
    Create_GraceTime_seconds [where impl = "\<lambda>f. 0" and spec =
     "\<lparr>Handle = ''some-handle'', GraceTime = 0, RootFSPath = ''/path/to/rootfs'',
      BindMounts = [], Network = ''some-network'', Properties = [],
      ContainerEnv = None, ContainerPrivileged = False\<rparr>"]
  by (simp add: Create_request_def Second_def convertEnvironmentVariables_def
        convertEnvironmentVariable_def SplitN_eq_2_def index_def)

text \<open>
  A grace time of 16777216.999999999 seconds.  A \<open>float64\<close> has 53 significant bits,
  so from \<open>2 ^ 24\<close> on the doubles lie \<open>2 ^ -28\<close> apart, about 3.7 nanoseconds.  The
  exact sum of \<open>float64(sec)\<close> and \<open>float64(nsec)/1e9\<close> is one nanosecond below
  16777217 and 2.7 nanoseconds above the double before it, so the sum is 16777217,
  and that is what is sent: one second more than the whole seconds.
\<close>

lemma Seconds_rounds_up: "Seconds 16777216999999999 = 16777217"
  by code_simp

theorem Create_GraceTime_rounds_up:
  "map_sum id Create_GraceTime (Create_request (\<lambda>f. 0)
     \<lparr>Handle = ''some-handle'', GraceTime = 16777216999999999, RootFSPath = ''/path/to/rootfs'',
      BindMounts = [], Network = ''some-network'', Properties = [],
      ContainerEnv = None, ContainerPrivileged = False\<rparr>)
   = Inr (Some 16777217)
   \<and> 16777216999999999 div Second = 16777216"
  by (simp add: Create_request_def Seconds_rounds_up uint32_of_float64_def truncate_float64_def
        Second_def)

end
